theory Spec2Isabelle
  imports
    Complex_Main
    "HOL-Library.Char_ord"
    "HOL-Library.List_Lexorder"
    "HOL-Library.Product_Lexorder"
begin

section \<open>JavaScript values and string primitives\<close>

text \<open>
  The route handlers read their input from \<open>req.body\<close>, which \<open>express.json()\<close> fills with
  parsed JSON. A field is therefore any JSON value, or absent (\<open>undefined\<close>). Strings are
  lists of code units below 256; numbers are the integers (fractions are outside the model).
\<close>

datatype json =
    JUndefined
  | JNull
  | JBool bool
  | JNum int
  | JStr string
  | JArr "json list"
  | JObj "(string \<times> json) list"

text \<open>JavaScript truthiness, as used by \<open>!x\<close> and \<open>x || y\<close>.\<close>

fun truthy :: "json \<Rightarrow> bool" where
  "truthy JUndefined = False"
| "truthy JNull = False"
| "truthy (JBool b) = b"
| "truthy (JNum n) = (n \<noteq> 0)"
| "truthy (JStr s) = (s \<noteq> [])"
| "truthy (JArr xs) = True"
| "truthy (JObj kvs) = True"

text \<open>
  What a \<open>catch (error)\<close> block can receive: an error of the store, with its SQLSTATE \<open>code\<close>
  and, for a constraint violation, the \<open>constraint\<close> name; or a JavaScript \<open>TypeError\<close>, which
  has neither field.
\<close>

datatype js_error =
    PgError string "string option"
  | TypeError

fun err_code :: "js_error \<Rightarrow> string option" where
  "err_code (PgError c k) = Some c"
| "err_code TypeError = None"

fun err_constraint :: "js_error \<Rightarrow> string option" where
  "err_constraint (PgError c k) = k"
| "err_constraint TypeError = None"

text \<open>Decimal rendering of a number, as \<open>String(n)\<close> gives it for an integer.\<close>

fun show_nat :: "nat \<Rightarrow> string" where
  "show_nat n =
     (if n < 10 then [char_of (48 + n)]
      else show_nat (n div 10) @ [char_of (48 + n mod 10)])"

definition show_int :: "int \<Rightarrow> string" where
  "show_int i = (if i < 0 then CHR ''-'' # show_nat (nat (- i)) else show_nat (nat i))"

fun join :: "string \<Rightarrow> string list \<Rightarrow> string" where
  "join sep [] = []"
| "join sep [x] = x"
| "join sep (x # y # ys) = x @ sep @ join sep (y # ys)"

text \<open>
  \<open>ToString\<close>, which \<open>RegExp.prototype.test\<close> applies to its argument. An array is the
  comma-joined rendering of its elements, \<open>null\<close> and \<open>undefined\<close> rendered empty. An object
  is converted by its \<open>toString\<close> method: parsed JSON inherits the one that gives
  \<open>[object Object]\<close>, unless the object has a key \<open>toString\<close> of its own, whose value is no
  function, and then the conversion throws a \<open>TypeError\<close>.
\<close>

fun toString :: "json \<Rightarrow> js_error + string"
  and toStrings :: "json list \<Rightarrow> js_error + string list" where
  "toString JUndefined = Inr ''undefined''"
| "toString JNull = Inr ''null''"
| "toString (JBool b) = Inr (if b then ''true'' else ''false'')"
| "toString (JNum n) = Inr (show_int n)"
| "toString (JStr s) = Inr s"
| "toString (JArr xs) = (case toStrings xs of Inl e \<Rightarrow> Inl e | Inr ss \<Rightarrow> Inr (join '','' ss))"
| "toString (JObj kvs) =
     (if ''toString'' \<in> fst ` set kvs then Inl TypeError else Inr ''[object Object]'')"
| "toStrings [] = Inr []"
| "toStrings (x # xs) =
     (case (if x = JNull \<or> x = JUndefined then Inr [] else toString x) of
        Inl e \<Rightarrow> Inl e
      | Inr s \<Rightarrow> (case toStrings xs of Inl e \<Rightarrow> Inl e | Inr ss \<Rightarrow> Inr (s # ss)))"

text \<open>White space of \<open>\s\<close> and of \<open>String.prototype.trim\<close>, among the code units below 256.\<close>

definition is_space :: "char \<Rightarrow> bool" where
  "is_space c = ((of_char c :: nat) \<in> set [9, 10, 11, 12, 13, 32, 160])"

definition trim :: "string \<Rightarrow> string" where
  "trim s = rev (dropWhile is_space (rev (dropWhile is_space s)))"

text \<open>\<open>String.prototype.toLowerCase\<close> on code units below 256.\<close>

definition lower_char :: "char \<Rightarrow> char" where
  "lower_char c =
     (let n = (of_char c :: nat)
      in if (65 \<le> n \<and> n \<le> 90) \<or> (192 \<le> n \<and> n \<le> 222 \<and> n \<noteq> 215)
         then char_of (n + 32) else c)"

definition toLowerCase :: "string \<Rightarrow> string" where
  "toLowerCase s = map lower_char s"



section \<open>Regular expressions\<close>

text \<open>
  The fragment of regular expressions the source uses, matched by derivatives. A pattern
  anchored with \<open>^\<close> and \<open>$\<close> (no flags) has to match the whole string.
\<close>

datatype atom =
    Ch char                      \<comment> \<open>a literal character\<close>
  | NotSpaceNor "char list"      \<comment> \<open>\<open>[^\s...]\<close>: neither white space nor a listed character\<close>

fun atom_ok :: "atom \<Rightarrow> char \<Rightarrow> bool" where
  "atom_ok (Ch d) c = (c = d)"
| "atom_ok (NotSpaceNor ds) c = (\<not> is_space c \<and> c \<notin> set ds)"

datatype rexp =
    Zero
  | One
  | Atom atom
  | Alt rexp rexp
  | Times rexp rexp
  | Star rexp

definition Plus :: "rexp \<Rightarrow> rexp" where
  "Plus r = Times r (Star r)"

fun nullable :: "rexp \<Rightarrow> bool" where
  "nullable Zero = False"
| "nullable One = True"
| "nullable (Atom a) = False"
| "nullable (Alt r s) = (nullable r \<or> nullable s)"
| "nullable (Times r s) = (nullable r \<and> nullable s)"
| "nullable (Star r) = True"

fun deriv :: "char \<Rightarrow> rexp \<Rightarrow> rexp" where
  "deriv c Zero = Zero"
| "deriv c One = Zero"
| "deriv c (Atom a) = (if atom_ok a c then One else Zero)"
| "deriv c (Alt r s) = Alt (deriv c r) (deriv c s)"
| "deriv c (Times r s) =
     (if nullable r then Alt (Times (deriv c r) s) (deriv c s) else Times (deriv c r) s)"
| "deriv c (Star r) = Times (deriv c r) (Star r)"

fun matches :: "rexp \<Rightarrow> string \<Rightarrow> bool" where
  "matches r [] = nullable r"
| "matches r (c # cs) = matches (deriv c r) cs"

text \<open>The strings a regular expression denotes.\<close>

inductive_set star :: "string set \<Rightarrow> string set" for A :: "string set" where
  star_nil: "[] \<in> star A"
| star_app: "u \<in> A \<Longrightarrow> v \<in> star A \<Longrightarrow> u @ v \<in> star A"

fun lang :: "rexp \<Rightarrow> string set" where
  "lang Zero = {}"
| "lang One = {[]}"
| "lang (Atom a) = {[c] | c. atom_ok a c}"
| "lang (Alt r s) = lang r \<union> lang s"
| "lang (Times r s) = {u @ v | u v. u \<in> lang r \<and> v \<in> lang s}"
| "lang (Star r) = star (lang r)"

text \<open>\<open>const emailRegex = /^[^\s@]+@[^\s@]+\.[^\s@]+$/\<close>\<close>

definition emailRegex :: rexp where
  "emailRegex =
     Times (Plus (Atom (NotSpaceNor ''@'')))
       (Times (Atom (Ch CHR ''@''))
         (Times (Plus (Atom (NotSpaceNor ''@'')))
           (Times (Atom (Ch CHR ''.''))
             (Plus (Atom (NotSpaceNor ''@''))))))"

text \<open>
  \<open>emailRegex.test(v)\<close>: the argument is converted to a string first, and the call throws
  when the conversion does.
\<close>

definition emailRegex_test :: "json \<Rightarrow> js_error + bool" where
  "emailRegex_test v =
     (case toString v of Inl e \<Rightarrow> Inl e | Inr s \<Rightarrow> Inr (matches emailRegex s))"

section \<open>The relational store\<close>

text \<open>
  The store is the PostgreSQL database behind \<open>pool\<close>. Its tables are the ones \<open>initDB\<close>
  declares; the columns \<open>video_url\<close> and \<open>created_at\<close> are never read by the operations
  modelled here and are left out.
\<close>

record company =
  c_id :: int
  c_name :: string
  c_website :: "string option"
  c_logo_url :: "string option"
  c_active :: bool

record vote =
  v_id :: int
  voter_name :: string
  voter_email :: string
  voter_phone :: string
  company_id :: "int option"

text \<open>
  A table of votes: its rows, the next value of its \<open>SERIAL\<close> sequence, and the names of the
  \<open>UNIQUE\<close> constraints on \<open>voter_email\<close> and \<open>voter_phone\<close> when it has them (the legacy
  table has none).
\<close>

record vtable =
  t_rows :: "vote list"
  t_next_id :: int
  t_email_key :: "string option"
  t_phone_key :: "string option"

record ctable =
  ct_rows :: "company list"
  ct_next_id :: int

text \<open>
  The relations of the database, by name; \<open>None\<close> is a relation that does not exist. The
  server's integer input reads plain decimal spellings in every version. Which other
  spellings it reads, and as what, depends on the version (none before PostgreSQL 16,
  prefixed and underscored ones from then on) and is the component \<open>int_spellings\<close>.
\<close>

record db =
  companies :: "ctable option"
  votes :: "vtable option"
  votes_new :: "vtable option"
  votes_old :: "vtable option"
  int_spellings :: "string \<Rightarrow> int option"

text \<open>
  \<open>await pool.query(...)\<close>: the statement runs on the store, unless the call fails for a
  reason of its own (connection lost, server down), given here as the fault \<open>flt\<close>.
\<close>

definition query ::
  "js_error option \<Rightarrow> (db \<Rightarrow> (js_error + 'a) \<times> db) \<Rightarrow> db \<Rightarrow> (js_error + 'a) \<times> db" where
  "query flt stmt d = (case flt of Some e \<Rightarrow> (Inl e, d) | None \<Rightarrow> stmt d)"

subsection \<open>Query parameters\<close>

text \<open>
  A parameter bound to an \<open>INTEGER\<close> column travels as text and is read by the store's
  integer input. The plain decimal spelling is optional white space, an optional sign,
  decimal digits, optional white space; any other text is read as \<open>other\<close> says, and what
  \<open>other\<close> does not read is SQLSTATE 22P02. A value outside 32 bits is 22003. The client
  sends \<open>null\<close> and \<open>undefined\<close> as SQL \<open>NULL\<close>, a number as its decimal rendering, a boolean
  as \<open>true\<close>/\<open>false\<close>, an array or object as a literal in braces, which is no integer.
\<close>

definition pg_space :: "char \<Rightarrow> bool" where
  "pg_space c = ((of_char c :: nat) \<in> set [9, 10, 11, 12, 13, 32])"

definition is_digit :: "char \<Rightarrow> bool" where
  "is_digit c = (48 \<le> (of_char c :: nat) \<and> (of_char c :: nat) \<le> 57)"

definition in_int4 :: "int \<Rightarrow> bool" where
  "in_int4 i = (- 2147483648 \<le> i \<and> i \<le> 2147483647)"

definition int4in :: "(string \<Rightarrow> int option) \<Rightarrow> string \<Rightarrow> js_error + int" where
  "int4in other s =
     (let s1 = dropWhile pg_space s;
          neg = (s1 \<noteq> [] \<and> hd s1 = CHR ''-'');
          s2 = (if s1 \<noteq> [] \<and> (hd s1 = CHR ''-'' \<or> hd s1 = CHR ''+'') then tl s1 else s1);
          ds = takeWhile is_digit s2;
          rest = dropWhile pg_space (dropWhile is_digit s2)
      in if ds = [] \<or> rest \<noteq> []
         then (case other s of
                 None \<Rightarrow> Inl (PgError ''22P02'' None)
               | Some i \<Rightarrow> if in_int4 i then Inr i else Inl (PgError ''22003'' None))
         else let v = foldl (\<lambda>a c. 10 * a + (int (of_char c) - 48)) 0 ds;
                  i = (if neg then - v else v)
              in if in_int4 i then Inr i else Inl (PgError ''22003'' None))"

fun pg_int4 :: "(string \<Rightarrow> int option) \<Rightarrow> json \<Rightarrow> js_error + int option" where
  "pg_int4 other JUndefined = Inr None"
| "pg_int4 other JNull = Inr None"
| "pg_int4 other (JNum n) = (if in_int4 n then Inr (Some n) else Inl (PgError ''22003'' None))"
| "pg_int4 other (JStr s) = (case int4in other s of Inl e \<Rightarrow> Inl e | Inr i \<Rightarrow> Inr (Some i))"
| "pg_int4 other (JBool b) = Inl (PgError ''22P02'' None)"
| "pg_int4 other (JArr xs) = Inl (PgError ''22P02'' None)"
| "pg_int4 other (JObj kvs) = Inl (PgError ''22P02'' None)"

text \<open>
  A value assigned to a \<open>VARCHAR(n)\<close> column: a longer string is refused with 22001, unless
  the characters beyond \<open>n\<close> are all blanks, which the store cuts off.
\<close>

definition varchar :: "nat \<Rightarrow> string \<Rightarrow> js_error + string" where
  "varchar n s =
     (if length s \<le> n then Inr s
      else if \<forall>c \<in> set (drop n s). c = CHR '' '' then Inr (take n s)
      else Inl (PgError ''22001'' None))"

subsection \<open>Schema statements of \<open>initDB\<close>\<close>

text \<open>
  A \<open>UNIQUE\<close> column constraint written without a name gets the name
  \<open>table_column_key\<close>, with a number appended while that name is taken by another relation.
\<close>

definition choose_name :: "string list \<Rightarrow> string \<Rightarrow> string" where
  "choose_name used base =
     (case filter (\<lambda>n. n \<notin> set used)
             (base # map (\<lambda>i. base @ show_nat i) [1 ..< length used + 2]) of
        [] \<Rightarrow> base
      | n # _ \<Rightarrow> n)"

definition key_names :: "vtable option \<Rightarrow> string list" where
  "key_names t =
     (case t of None \<Rightarrow> []
      | Some tb \<Rightarrow> (case t_email_key tb of None \<Rightarrow> [] | Some n \<Rightarrow> [n])
                 @ (case t_phone_key tb of None \<Rightarrow> [] | Some n \<Rightarrow> [n]))"

text \<open>\<open>CREATE TABLE IF NOT EXISTS companies (id SERIAL PRIMARY KEY, name ... UNIQUE, ...)\<close>\<close>

definition create_companies :: "db \<Rightarrow> (js_error + unit) \<times> db" where
  "create_companies d =
     (case companies d of
        Some t \<Rightarrow> (Inr (), d)
      | None \<Rightarrow> (Inr (), d\<lparr>companies := Some \<lparr>ct_rows = [], ct_next_id = 1\<rparr>\<rparr>))"

text \<open>
  \<open>CREATE TABLE IF NOT EXISTS votes_new (..., voter_email ... UNIQUE, voter_phone ... UNIQUE,
  ...)\<close>
\<close>

definition create_votes_new :: "db \<Rightarrow> (js_error + unit) \<times> db" where
  "create_votes_new d =
     (case votes_new d of
        Some t \<Rightarrow> (Inr (), d)
      | None \<Rightarrow>
          (let used = key_names (votes d) @ key_names (votes_old d);
               ek = choose_name used ''votes_new_voter_email_key'';
               pk = choose_name (ek # used) ''votes_new_voter_phone_key''
           in (Inr (), d\<lparr>votes_new := Some \<lparr>t_rows = [], t_next_id = 1,
                                            t_email_key = Some ek, t_phone_key = Some pk\<rparr>\<rparr>)))"

text \<open>\<open>DROP TABLE IF EXISTS votes_old\<close>\<close>

definition drop_votes_old :: "db \<Rightarrow> (js_error + unit) \<times> db" where
  "drop_votes_old d = (Inr (), d\<lparr>votes_old := None\<rparr>)"

text \<open>
  \<open>ALTER TABLE votes RENAME TO votes_old\<close>: 42P01 when there is no table \<open>votes\<close>, 42P07
  when \<open>votes_old\<close> is taken. The table keeps its rows, its sequence and its constraints with
  their names.
\<close>

definition rename_votes_to_old :: "db \<Rightarrow> (js_error + unit) \<times> db" where
  "rename_votes_to_old d =
     (case votes d of
        None \<Rightarrow> (Inl (PgError ''42P01'' None), d)
      | Some t \<Rightarrow>
          (if votes_old d \<noteq> None then (Inl (PgError ''42P07'' None), d)
           else (Inr (), d\<lparr>votes := None, votes_old := Some t\<rparr>)))"

text \<open>\<open>ALTER TABLE votes_new RENAME TO votes\<close>\<close>

definition rename_new_to_votes :: "db \<Rightarrow> (js_error + unit) \<times> db" where
  "rename_new_to_votes d =
     (case votes_new d of
        None \<Rightarrow> (Inl (PgError ''42P01'' None), d)
      | Some t \<Rightarrow>
          (if votes d \<noteq> None then (Inl (PgError ''42P07'' None), d)
           else (Inr (), d\<lparr>votes_new := None, votes := Some t\<rparr>)))"

text \<open>
  \<open>INSERT INTO companies (name, website, logo_url) VALUES ('Apple', ...), ('Google', ...)
  ON CONFLICT (name) DO NOTHING\<close>. Each proposed row takes a value of the sequence, also
  when the conflict then discards it.
\<close>

definition seed_row :: "string \<Rightarrow> string \<Rightarrow> string \<Rightarrow> ctable \<Rightarrow> ctable" where
  "seed_row nm web logo t =
     (let t' = t\<lparr>ct_next_id := ct_next_id t + 1\<rparr>
      in if \<exists>c \<in> set (ct_rows t). c_name c = nm then t'
         else t'\<lparr>ct_rows := ct_rows t @
                  [\<lparr>c_id = ct_next_id t, c_name = nm, c_website = Some web,
                    c_logo_url = Some logo, c_active = True\<rparr>]\<rparr>)"

definition seed_companies :: "db \<Rightarrow> (js_error + unit) \<times> db" where
  "seed_companies d =
     (case companies d of
        None \<Rightarrow> (Inl (PgError ''42P01'' None), d)
      | Some t \<Rightarrow>
          (Inr (), d\<lparr>companies := Some
             (seed_row ''Google'' ''https://google.com'' ''https://logo.clearbit.com/google.com''
               (seed_row ''Apple'' ''https://apple.com'' ''https://logo.clearbit.com/apple.com''
                  t))\<rparr>))"

subsection \<open>\<open>initDB\<close>\<close>

text \<open>The faults of the six statements of one run of \<open>initDB\<close>, in the order of the source.\<close>

record init_faults =
  f_create_companies :: "js_error option"
  f_create_votes_new :: "js_error option"
  f_drop_old :: "js_error option"
  f_rename_votes :: "js_error option"
  f_rename_new :: "js_error option"
  f_seed :: "js_error option"

text \<open>
  The inner \<open>try\<close> block: the three statements in sequence, the first failure leaving the
  block. The result tells whether the block ran through.
\<close>

definition rename_sequence :: "init_faults \<Rightarrow> db \<Rightarrow> (js_error + unit) \<times> db" where
  "rename_sequence f d =
     (case query (f_drop_old f) drop_votes_old d of
        (Inl e, d1) \<Rightarrow> (Inl e, d1)
      | (Inr u, d1) \<Rightarrow>
          (case query (f_rename_votes f) rename_votes_to_old d1 of
             (Inl e, d2) \<Rightarrow> (Inl e, d2)
           | (Inr u, d2) \<Rightarrow> query (f_rename_new f) rename_new_to_votes d2))"

text \<open>
  \<open>initDB\<close> returns the store and the lines it logged. It has no path that throws: the
  outer \<open>catch\<close> logs every error.
\<close>

definition initDB :: "init_faults \<Rightarrow> db \<Rightarrow> db \<times> string list" where
  "initDB f d =
     (case query (f_create_companies f) create_companies d of
        (Inl e, d1) \<Rightarrow> (d1, [''Error initializing database:''])
      | (Inr u, d1) \<Rightarrow>
          (case query (f_create_votes_new f) create_votes_new d1 of
             (Inl e, d2) \<Rightarrow> (d2, [''Error initializing database:''])
           | (Inr u, d2) \<Rightarrow>
               (let (r, d3) = rename_sequence f d2;
                    l1 = (case r of
                            Inr u \<Rightarrow> ''Created new votes table with unique constraints''
                          | Inl e \<Rightarrow> ''Votes table setup completed'')
                in case query (f_seed f) seed_companies d3 of
                     (Inl e, d4) \<Rightarrow> (d4, [l1, ''Error initializing database:''])
                   | (Inr u, d4) \<Rightarrow> (d4, [l1, ''Database initialized successfully'']))))"

text \<open>Starting the server several times: one run of \<open>initDB\<close> per start, each with its faults.\<close>

fun startups :: "init_faults list \<Rightarrow> db \<Rightarrow> db" where
  "startups [] d = d"
| "startups (f # fs) d = startups fs (fst (initDB f d))"

section \<open>Vote submission\<close>

subsection \<open>The two statements of the handler\<close>

text \<open>
  \<open>SELECT id, name, website FROM companies WHERE id = $1 AND active = true\<close>
\<close>

definition select_company :: "json \<Rightarrow> db \<Rightarrow> (js_error + company list) \<times> db" where
  "select_company p d =
     (case companies d of
        None \<Rightarrow> (Inl (PgError ''42P01'' None), d)
      | Some t \<Rightarrow>
          (case pg_int4 (int_spellings d) p of
             Inl e \<Rightarrow> (Inl e, d)
           | Inr None \<Rightarrow> (Inr [], d)
           | Inr (Some k) \<Rightarrow> (Inr (filter (\<lambda>c. c_id c = k \<and> c_active c) (ct_rows t)), d)))"

text \<open>
  \<open>INSERT INTO votes (voter_name, voter_email, voter_phone, company_id)
  VALUES ($1, $2, $3, $4) RETURNING id\<close>, on the table that bears the name \<open>votes\<close>.
  The parameters are read and fitted to \<open>VARCHAR(255)\<close>, \<open>VARCHAR(255)\<close> and \<open>VARCHAR(20)\<close>
  before the statement runs, so that a failure there leaves the sequence as it was. The
  row then takes the next value of the sequence, which stays consumed when the statement
  fails later. The unique indexes are checked in the order of their declaration, and a
  duplicate is 23505 with the name of the constraint; the reference to \<open>companies(id)\<close> is
  checked last (23503).
\<close>

definition insert_vote ::
  "string \<Rightarrow> string \<Rightarrow> string \<Rightarrow> json \<Rightarrow> db \<Rightarrow> (js_error + int) \<times> db" where
  "insert_vote nm em ph cv d =
     (case votes d of
        None \<Rightarrow> (Inl (PgError ''42P01'' None), d)
      | Some t \<Rightarrow>
          (case pg_int4 (int_spellings d) cv of
             Inl e \<Rightarrow> (Inl e, d)
           | Inr k \<Rightarrow>
               (case varchar 255 nm of
                  Inl e \<Rightarrow> (Inl e, d)
                | Inr name \<Rightarrow>
                    (case varchar 255 em of
                       Inl e \<Rightarrow> (Inl e, d)
                     | Inr email \<Rightarrow>
                         (case varchar 20 ph of
                            Inl e \<Rightarrow> (Inl e, d)
                          | Inr phone \<Rightarrow>
               (let t' = t\<lparr>t_next_id := t_next_id t + 1\<rparr>;
                    d' = d\<lparr>votes := Some t'\<rparr>
                in if t_email_key t \<noteq> None \<and> (\<exists>v \<in> set (t_rows t). voter_email v = email)
                   then (Inl (PgError ''23505'' (t_email_key t)), d')
                   else if t_phone_key t \<noteq> None \<and> (\<exists>v \<in> set (t_rows t). voter_phone v = phone)
                   then (Inl (PgError ''23505'' (t_phone_key t)), d')
                   else if k \<noteq> None \<and>
                           \<not> (\<exists>c \<in> set (case companies d of None \<Rightarrow> [] | Some ct \<Rightarrow> ct_rows ct).
                                 Some (c_id c) = k)
                   then (Inl (PgError ''23503'' (Some ''votes_new_company_id_fkey'')), d')
                   else (Inr (t_next_id t),
                         d\<lparr>votes := Some (t'\<lparr>t_rows := t_rows t @
                              [\<lparr>v_id = t_next_id t, voter_name = name, voter_email = email,
                                voter_phone = phone, company_id = k\<rparr>]\<rparr>)\<rparr>)))))))"

subsection \<open>The notification\<close>

record voteData =
  vd_voterName :: string
  vd_voterEmail :: string
  vd_voterPhone :: string
  vd_companyName :: string
  vd_companyWebsite :: "string option"
  vd_voteId :: int

text \<open>
  What \<open>fetch\<close> does with the request: it resolves to a response with a status (\<open>response.ok\<close>
  is a status from 200 to 299), it rejects, or it never settles (the webhook never answers).
\<close>

datatype fetch_result = Resolves nat | Rejects | NeverSettles

text \<open>The state a promise ends in; \<open>Pending\<close> is a promise that never settles.\<close>

datatype settled = Fulfilled | Rejected js_error | Pending

text \<open>
  \<open>sendToGoogleSheets(voteData)\<close>, given the value of the environment variable
  \<open>GOOGLE_SHEETS_WEBHOOK_URL\<close>. The result is how the promise it returns ends, the
  payloads posted, and the lines logged. Its \<open>await fetch(...)\<close> holds the function for as
  long as the call is not settled.
\<close>

definition sendToGoogleSheets ::
  "string option \<Rightarrow> fetch_result \<Rightarrow> voteData \<Rightarrow> settled \<times> voteData list \<times> string list" where
  "sendToGoogleSheets env_url fr vd =
     (let GOOGLE_APPS_SCRIPT_URL =
            (case env_url of
               None \<Rightarrow> ''YOUR_APPS_SCRIPT_URL_HERE''
             | Some u \<Rightarrow> if u = [] then ''YOUR_APPS_SCRIPT_URL_HERE'' else u)
      in if GOOGLE_APPS_SCRIPT_URL = ''YOUR_APPS_SCRIPT_URL_HERE''
         then (Fulfilled, [], [''Google Sheets webhook URL not configured''])
         else (case fr of
                 NeverSettles \<Rightarrow> (Pending, [vd], [])
               | Rejects \<Rightarrow> (Fulfilled, [vd], [''Error sending to Google Sheets:''])
               | Resolves st \<Rightarrow>
                   if 200 \<le> st \<and> st \<le> 299
                   then (Fulfilled, [vd], [''Successfully sent vote to Google Sheets''])
                   else (Fulfilled, [vd], [''Failed to send to Google Sheets:''])))"

subsection \<open>The handler of \<open>POST /api/vote\<close>\<close>

record vote_body =
  voterName :: json
  voterEmail :: json
  voterPhone :: json
  companyVote :: json

text \<open>One entry of the leaderboard response.\<close>

record lb_item =
  li_rank :: nat
  li_id :: int
  li_name :: string
  li_website :: "string option"
  li_votes :: int
  li_percentage :: rat

text \<open>
  The JSON bodies the handlers send. The leaderboard's \<open>lastUpdated\<close> is the time of the
  response and is left out.
\<close>

datatype body =
    Error string
  | VoteSubmitted string int
  | CompanyAdded string company
  | Leaderboard "lb_item list" int

text \<open>
  A handler either sends a response, or throws outside every \<open>try\<close> block, in which case
  the handler itself sends nothing.
\<close>

datatype outcome = Response nat body | Thrown

datatype stmt =
    SelectCompany json
  | SelectVotesByEmail string
  | InsertVote string string string json
  | InsertCompany string "string option" "string option"
  | SelectLeaderboard

text \<open>
  What surrounds one request: the faults of its two statements, the webhook configuration
  and the fate of the webhook call.
\<close>

record vote_env =
  f_select :: "js_error option"
  f_insert :: "js_error option"
  webhook_url :: "string option"
  webhook_fetch :: fetch_result

text \<open>
  A run of a handler: the response, the store afterwards, the statements sent to the store
  in order, the payloads posted to the webhook, and the lines logged.
\<close>

record run =
  res :: outcome
  store :: db
  queries :: "stmt list"
  posted :: "voteData list"
  logged :: "string list"

text \<open>
  The handler below calls \<open>sendToGoogleSheets(...)\<close> without \<open>await\<close> and goes on to send the
  201 at once: the answer does not wait for the promise, which may still be pending, and a
  rejection would only be logged by the \<open>.catch\<close> attached to it.
\<close>

text \<open>The \<open>catch\<close> block of the handler.\<close>

definition vote_catch :: "js_error \<Rightarrow> outcome" where
  "vote_catch e =
     (if err_code e = Some ''23505'' then
        (if err_constraint e = Some ''unique_email''
         then Response 400 (Error ''This email address has already been used to vote'')
         else if err_constraint e = Some ''unique_phone''
         then Response 400 (Error ''This phone number has already been used to vote'')
         else Response 400 (Error ''You have already voted''))
      else Response 500 (Error ''Failed to submit vote''))"

definition post_api_vote :: "vote_env \<Rightarrow> vote_body \<Rightarrow> db \<Rightarrow> run" where
  "post_api_vote env b d =
     (if \<not> truthy (voterName b) \<or> \<not> truthy (voterEmail b) \<or> \<not> truthy (voterPhone b)
         \<or> \<not> truthy (companyVote b)
      then \<lparr>res = Response 400 (Error ''All fields are required''), store = d, queries = [],
            posted = [], logged = []\<rparr>
      else case emailRegex_test (voterEmail b) of
        Inl err \<Rightarrow> \<lparr>res = Thrown, store = d, queries = [], posted = [], logged = []\<rparr>
      | Inr False \<Rightarrow>
          \<lparr>res = Response 400 (Error ''Invalid email format''), store = d, queries = [],
           posted = [], logged = []\<rparr>
      | Inr True \<Rightarrow>
        (case (voterEmail b, voterPhone b) of
           (JStr e, JStr p) \<Rightarrow>
             (let cleanEmail = trim (toLowerCase e);
                  cleanPhone = trim p;
                  q1 = [SelectCompany (companyVote b)]
              in case query (f_select env) (select_company (companyVote b)) d of
                   (Inl err, d1) \<Rightarrow>
                     \<lparr>res = vote_catch err, store = d1, queries = q1, posted = [],
                      logged = [''Vote submission error:'']\<rparr>
                 | (Inr [], d1) \<Rightarrow>
                     \<lparr>res = Response 400 (Error ''Invalid company selection''), store = d1,
                      queries = q1, posted = [], logged = []\<rparr>
                 | (Inr (selectedCompany # others), d1) \<Rightarrow>
                     (case voterName b of
                        JStr n \<Rightarrow>
                          (let q2 = q1 @ [InsertVote (trim n) cleanEmail cleanPhone (companyVote b)]
                           in case query (f_insert env)
                                     (insert_vote (trim n) cleanEmail cleanPhone (companyVote b)) d1 of
                                (Inl err, d2) \<Rightarrow>
                                  \<lparr>res = vote_catch err, store = d2, queries = q2, posted = [],
                                   logged = [''Vote submission error:'']\<rparr>
                              | (Inr voteId, d2) \<Rightarrow>
                                  (let (ended, ps, ls) =
                                         sendToGoogleSheets (webhook_url env) (webhook_fetch env)
                                           \<lparr>vd_voterName = trim n, vd_voterEmail = cleanEmail,
                                            vd_voterPhone = cleanPhone,
                                            vd_companyName = c_name selectedCompany,
                                            vd_companyWebsite = c_website selectedCompany,
                                            vd_voteId = voteId\<rparr>;
                                       ls' = (case ended of
                                                Rejected err \<Rightarrow>
                                                  ls @ [''Failed to send to Google Sheets:'']
                                              | _ \<Rightarrow> ls)
                                   in \<lparr>res = Response 201
                                               (VoteSubmitted ''Vote submitted successfully'' voteId),
                                       store = d2, queries = q2, posted = ps, logged = ls'\<rparr>))
                      | _ \<Rightarrow>
                          \<lparr>res = vote_catch TypeError, store = d1, queries = q1, posted = [],
                           logged = [''Vote submission error:'']\<rparr>))
         | _ \<Rightarrow> \<lparr>res = Thrown, store = d, queries = [], posted = [], logged = []\<rparr>))"

subsection \<open>The handler of \<open>POST /api/vote\<close> in \<open>server.js\<close>\<close>

text \<open>
  The older variant asks the store for a vote with the same email before it looks the
  company up, and inserts the values as they came.
  \<open>SELECT id FROM votes WHERE voter_email = $1\<close>
\<close>

definition select_votes_by_email :: "string \<Rightarrow> db \<Rightarrow> (js_error + int list) \<times> db" where
  "select_votes_by_email em d =
     (case votes d of
        None \<Rightarrow> (Inl (PgError ''42P01'' None), d)
      | Some t \<Rightarrow> (Inr (map v_id (filter (\<lambda>v. voter_email v = em) (t_rows t))), d))"

record hist_env =
  hf_precheck :: "js_error option"
  hf_select :: "js_error option"
  hf_insert :: "js_error option"

text \<open>
  The values go to the store as query parameters without a conversion by the handler; how
  the client library renders a JSON value as the text of a parameter is the parameter
  \<open>pg_text\<close>. Every \<open>catch\<close> of this variant answers 500.
\<close>

definition post_api_vote_server_js ::
  "(json \<Rightarrow> string) \<Rightarrow> hist_env \<Rightarrow> vote_body \<Rightarrow> db \<Rightarrow> run" where
  "post_api_vote_server_js pg_text env b d =
     (if \<not> truthy (voterName b) \<or> \<not> truthy (voterEmail b) \<or> \<not> truthy (voterPhone b)
         \<or> \<not> truthy (companyVote b)
      then \<lparr>res = Response 400 (Error ''All fields are required''), store = d, queries = [],
            posted = [], logged = []\<rparr>
      else case emailRegex_test (voterEmail b) of
        Inl err \<Rightarrow> \<lparr>res = Thrown, store = d, queries = [], posted = [], logged = []\<rparr>
      | Inr False \<Rightarrow>
          \<lparr>res = Response 400 (Error ''Invalid email format''), store = d, queries = [],
           posted = [], logged = []\<rparr>
      | Inr True \<Rightarrow>
        (let q1 = [SelectVotesByEmail (pg_text (voterEmail b))]
         in case query (hf_precheck env) (select_votes_by_email (pg_text (voterEmail b))) d of
              (Inl err, d1) \<Rightarrow>
                \<lparr>res = Response 500 (Error ''Failed to submit vote''), store = d1, queries = q1,
                 posted = [], logged = [''Error submitting vote:'']\<rparr>
            | (Inr (existing # others), d1) \<Rightarrow>
                \<lparr>res = Response 400 (Error ''This email has already voted''), store = d1,
                 queries = q1, posted = [], logged = []\<rparr>
            | (Inr [], d1) \<Rightarrow>
                (let q2 = q1 @ [SelectCompany (companyVote b)]
                 in case query (hf_select env) (select_company (companyVote b)) d1 of
                      (Inl err, d2) \<Rightarrow>
                        \<lparr>res = Response 500 (Error ''Failed to submit vote''), store = d2,
                         queries = q2, posted = [], logged = [''Error submitting vote:'']\<rparr>
                    | (Inr [], d2) \<Rightarrow>
                        \<lparr>res = Response 400 (Error ''Invalid company selection''), store = d2,
                         queries = q2, posted = [], logged = []\<rparr>
                    | (Inr (company # further), d2) \<Rightarrow>
                        (let q3 = q2 @ [InsertVote (pg_text (voterName b)) (pg_text (voterEmail b))
                                          (pg_text (voterPhone b)) (companyVote b)]
                         in case query (hf_insert env)
                                   (insert_vote (pg_text (voterName b)) (pg_text (voterEmail b))
                                      (pg_text (voterPhone b)) (companyVote b)) d2 of
                              (Inl err, d3) \<Rightarrow>
                                \<lparr>res = Response 500 (Error ''Failed to submit vote''), store = d3,
                                 queries = q3, posted = [], logged = [''Error submitting vote:'']\<rparr>
                            | (Inr voteId, d3) \<Rightarrow>
                                \<lparr>res = Response 201
                                         (VoteSubmitted ''Vote submitted successfully'' voteId),
                                 store = d3, queries = q3, posted = [], logged = []\<rparr>))))"

section \<open>Leaderboard\<close>

text \<open>A row of the leaderboard query; \<open>percentage\<close> is \<open>NULL\<close> when there is no vote.\<close>

record lb_row =
  lr_id :: int
  lr_name :: string
  lr_website :: "string option"
  lr_vote_count :: nat
  lr_percentage :: "rat option"

text \<open>\<open>ROUND(x, 1)\<close> on \<open>numeric\<close>: to one decimal, a half away from zero.\<close>

definition pg_round1 :: "rat \<Rightarrow> rat" where
  "pg_round1 q =
     (if 0 \<le> q then of_int \<lfloor>q * 10 + 1 / 2\<rfloor> / 10 else - (of_int \<lfloor>- q * 10 + 1 / 2\<rfloor> / 10))"

text \<open>
  \<open>SELECT c.id, c.name, c.website, COUNT(v.id) as vote_count,
     ROUND((COUNT(v.id) * 100.0 / NULLIF((SELECT COUNT(*) FROM votes), 0)), 1) as percentage
   FROM companies c LEFT JOIN votes v ON c.id = v.company_id
   WHERE c.active = true GROUP BY c.id, c.name, c.website
   ORDER BY vote_count DESC, c.name\<close>.
  The primary key makes one group per company. The quotient is taken exactly (the store
  carries it to at least sixteen digits before \<open>ROUND\<close>), and names are ordered code unit by
  code unit.
\<close>

definition count_votes :: "vote list \<Rightarrow> int \<Rightarrow> nat" where
  "count_votes vs k = length (filter (\<lambda>v. company_id v = Some k) vs)"

definition lb_row_of :: "vote list \<Rightarrow> company \<Rightarrow> lb_row" where
  "lb_row_of vs c =
     \<lparr>lr_id = c_id c, lr_name = c_name c, lr_website = c_website c,
      lr_vote_count = count_votes vs (c_id c),
      lr_percentage =
        (if length vs = 0 then None
         else Some (pg_round1 (of_nat (count_votes vs (c_id c)) * 100 / of_nat (length vs))))\<rparr>"

definition select_leaderboard :: "db \<Rightarrow> (js_error + lb_row list) \<times> db" where
  "select_leaderboard d =
     (case companies d of
        None \<Rightarrow> (Inl (PgError ''42P01'' None), d)
      | Some ct \<Rightarrow>
          (case votes d of
             None \<Rightarrow> (Inl (PgError ''42P01'' None), d)
           | Some vt \<Rightarrow>
               (Inr (sort_key (\<lambda>r. (- int (lr_vote_count r), lr_name r))
                       (map (lb_row_of (t_rows vt)) (filter c_active (ct_rows ct)))), d)))"

text \<open>
  \<open>result.rows.map((row, index) => ({rank: index + 1, ..., votes: parseInt(row.vote_count),
  percentage: parseFloat(row.percentage) || 0}))\<close>
\<close>

definition lb_item_of :: "nat \<times> lb_row \<Rightarrow> lb_item" where
  "lb_item_of ir =
     \<lparr>li_rank = fst ir + 1, li_id = lr_id (snd ir), li_name = lr_name (snd ir),
      li_website = lr_website (snd ir), li_votes = int (lr_vote_count (snd ir)),
      li_percentage = (case lr_percentage (snd ir) of None \<Rightarrow> 0 | Some q \<Rightarrow> q)\<rparr>"

definition get_api_leaderboard :: "js_error option \<Rightarrow> db \<Rightarrow> run" where
  "get_api_leaderboard flt d =
     (case query flt select_leaderboard d of
        (Inl err, d1) \<Rightarrow>
          \<lparr>res = Response 500 (Error ''Failed to fetch leaderboard''), store = d1,
           queries = [SelectLeaderboard], posted = [], logged = [''Error fetching leaderboard:'']\<rparr>
      | (Inr rows, d1) \<Rightarrow>
          (let leaderboard = map lb_item_of (enumerate 0 rows)
           in \<lparr>res = Response 200
                       (Leaderboard leaderboard (foldl (\<lambda>sum item. sum + li_votes item) 0 leaderboard)),
               store = d1, queries = [SelectLeaderboard], posted = [], logged = []\<rparr>))"

text \<open>The percentages of a response, and the number of votes in the table \<open>votes\<close>.\<close>

fun percentages :: "outcome \<Rightarrow> rat list" where
  "percentages (Response st (Leaderboard items tv)) = map li_percentage items"
| "percentages other = []"

definition total_votes :: "db \<Rightarrow> nat" where
  "total_votes d = (case votes d of None \<Rightarrow> 0 | Some vt \<Rightarrow> length (t_rows vt))"

section \<open>Adding a company\<close>

text \<open>A nullable \<open>VARCHAR(n)\<close> column.\<close>

definition varchar_opt :: "nat \<Rightarrow> string option \<Rightarrow> js_error + string option" where
  "varchar_opt n w =
     (case w of
        None \<Rightarrow> Inr None
      | Some s \<Rightarrow> (case varchar n s of Inl e \<Rightarrow> Inl e | Inr s' \<Rightarrow> Inr (Some s')))"

text \<open>
  \<open>INSERT INTO companies (name, website, logo_url) VALUES ($1, $2, $3) RETURNING *\<close>;
  the variant that names no \<open>logo_url\<close> column passes \<open>None\<close> for it. The values are fitted
  to \<open>VARCHAR(255)\<close>, \<open>VARCHAR(255)\<close> and \<open>VARCHAR(500)\<close> before the statement runs. \<open>active\<close>
  takes its default \<open>true\<close>; \<open>name\<close> is \<open>UNIQUE\<close>.
\<close>

definition insert_company ::
  "string \<Rightarrow> string option \<Rightarrow> string option \<Rightarrow> db \<Rightarrow> (js_error + company) \<times> db" where
  "insert_company nm web logo d =
     (case companies d of
        None \<Rightarrow> (Inl (PgError ''42P01'' None), d)
      | Some t \<Rightarrow>
          (case varchar 255 nm of
             Inl e \<Rightarrow> (Inl e, d)
           | Inr name \<Rightarrow>
               (case varchar_opt 255 web of
                  Inl e \<Rightarrow> (Inl e, d)
                | Inr website \<Rightarrow>
                    (case varchar_opt 500 logo of
                       Inl e \<Rightarrow> (Inl e, d)
                     | Inr logo_url \<Rightarrow>
          (let t' = t\<lparr>ct_next_id := ct_next_id t + 1\<rparr>;
               row = \<lparr>c_id = ct_next_id t, c_name = name, c_website = website,
                      c_logo_url = logo_url, c_active = True\<rparr>
           in if \<exists>c \<in> set (ct_rows t). c_name c = name
              then (Inl (PgError ''23505'' (Some ''companies_name_key'')), d\<lparr>companies := Some t'\<rparr>)
              else (Inr row, d\<lparr>companies := Some (t'\<lparr>ct_rows := ct_rows t @ [row]\<rparr>)\<rparr>))))))"

record company_body =
  cb_name :: json
  cb_website :: json

text \<open>\<open>website?.trim() || null\<close>; a value that is neither nullish nor a string has no \<open>trim\<close>.\<close>

fun website_param :: "json \<Rightarrow> js_error + string option" where
  "website_param JUndefined = Inr None"
| "website_param JNull = Inr None"
| "website_param (JStr w) = Inr (if trim w = [] then None else Some (trim w))"
| "website_param other = Inl TypeError"

text \<open>The \<open>catch\<close> block of the add-company handlers.\<close>

definition company_catch :: "js_error \<Rightarrow> outcome \<times> string list" where
  "company_catch e =
     (if err_code e = Some ''23505'' then (Response 400 (Error ''Company already exists''), [])
      else (Response 500 (Error ''Failed to add company''), [''Error adding company:'']))"

text \<open>
  The part both variants of \<open>POST /api/admin/companies\<close> share, given the logo URL to
  insert.
\<close>

definition add_company :: "string option \<Rightarrow> js_error option \<Rightarrow> company_body \<Rightarrow> db \<Rightarrow> run" where
  "add_company logoUrl flt b d =
     (if \<not> truthy (cb_name b)
      then \<lparr>res = Response 400 (Error ''Company name is required''), store = d, queries = [],
            posted = [], logged = []\<rparr>
      else case cb_name b of
        JStr n \<Rightarrow>
          (if trim n = []
           then \<lparr>res = Response 400 (Error ''Company name is required''), store = d,
                 queries = [], posted = [], logged = []\<rparr>
           else case website_param (cb_website b) of
             Inl err \<Rightarrow>
               \<lparr>res = fst (company_catch err), store = d, queries = [], posted = [],
                logged = snd (company_catch err)\<rparr>
           | Inr w \<Rightarrow>
               (case query flt (insert_company (trim n) w logoUrl) d of
                  (Inl err, d1) \<Rightarrow>
                    \<lparr>res = fst (company_catch err), store = d1,
                     queries = [InsertCompany (trim n) w logoUrl], posted = [],
                     logged = snd (company_catch err)\<rparr>
                | (Inr row, d1) \<Rightarrow>
                    \<lparr>res = Response 201 (CompanyAdded ''Company added successfully'' row),
                     store = d1, queries = [InsertCompany (trim n) w logoUrl], posted = [],
                     logged = []\<rparr>))
      | _ \<Rightarrow> \<lparr>res = Thrown, store = d, queries = [], posted = [], logged = []\<rparr>)"




section \<open>Observations and example states\<close>

text \<open>The rows of the table that bears the name \<open>votes\<close>.\<close>

definition vote_rows :: "db \<Rightarrow> vote list" where
  "vote_rows d = (case votes d of None \<Rightarrow> [] | Some t \<Rightarrow> t_rows t)"

text \<open>A field that is missing (absent or \<open>null\<close>) or empty.\<close>

definition missing_or_empty :: "json \<Rightarrow> bool" where
  "missing_or_empty v = (v = JUndefined \<or> v = JNull \<or> v = JStr [])"

text \<open>
  A database that holds only a legacy table \<open>votes\<close> without constraints, the same database
  after one start of the server without faults, and the submissions of the scenario.
\<close>

definition no_faults :: init_faults where
  "no_faults = \<lparr>f_create_companies = None, f_create_votes_new = None, f_drop_old = None,
                f_rename_votes = None, f_rename_new = None, f_seed = None\<rparr>"

definition legacy_votes :: vtable where
  "legacy_votes = \<lparr>t_rows = [], t_next_id = 1, t_email_key = None, t_phone_key = None\<rparr>"

definition legacy_db :: db where
  "legacy_db = \<lparr>companies = None, votes = Some legacy_votes, votes_new = None, votes_old = None,
      int_spellings = (\<lambda>s. None)\<rparr>"

definition started_db :: db where
  "started_db = fst (initDB no_faults legacy_db)"

definition quiet_env :: vote_env where
  "quiet_env = \<lparr>f_select = None, f_insert = None, webhook_url = None, webhook_fetch = Rejects\<rparr>"

definition ana_first :: vote_body where
  "ana_first = \<lparr>voterName = JStr ''Ana Silva'', voterEmail = JStr ''Ana@X.com'',
                voterPhone = JStr ''555-0001'', companyVote = JNum 1\<rparr>"

definition ana_spaced :: vote_body where
  "ana_spaced = \<lparr>voterName = JStr ''Ana Silva'', voterEmail = JStr ''ana@x.com '',
                 voterPhone = JStr ''555-0002'', companyVote = JNum 1\<rparr>"

definition ana_lower :: vote_body where
  "ana_lower = \<lparr>voterName = JStr ''Ana Silva'', voterEmail = JStr ''ana@x.com'',
                voterPhone = JStr ''555-0002'', companyVote = JNum 1\<rparr>"

definition after_ana :: db where
  "after_ana = store (post_api_vote quiet_env ana_first started_db)"

definition zero_company_db :: db where
  "zero_company_db =
     \<lparr>companies = Some \<lparr>ct_rows = [\<lparr>c_id = 0, c_name = ''Zero'', c_website = None,
                                     c_logo_url = None, c_active = True\<rparr>], ct_next_id = 1\<rparr>,
      votes = Some \<lparr>t_rows = [], t_next_id = 1,
                    t_email_key = Some ''votes_new_voter_email_key'',
                    t_phone_key = Some ''votes_new_voter_phone_key''\<rparr>,
      votes_new = None, votes_old = None,
      int_spellings = (\<lambda>s. None)\<rparr>"

text \<open>The rows of the table \<open>companies\<close>.\<close>

definition company_rows :: "db \<Rightarrow> company list" where
  "company_rows d = (case companies d of None \<Rightarrow> [] | Some ct \<Rightarrow> ct_rows ct)"


text \<open>A store in which the company with id 2 has been deactivated, and a failing webhook.\<close>

definition deactivated_companies :: ctable where
  "deactivated_companies =
     \<lparr>ct_rows =
        [\<lparr>c_id = 1, c_name = ''Apple'', c_website = Some ''https://apple.com'',
          c_logo_url = Some ''https://logo.clearbit.com/apple.com'', c_active = True\<rparr>,
         \<lparr>c_id = 2, c_name = ''Google'', c_website = Some ''https://google.com'',
          c_logo_url = Some ''https://logo.clearbit.com/google.com'', c_active = False\<rparr>],
      ct_next_id = 3\<rparr>"

definition deactivated_db :: db where
  "deactivated_db =
     \<lparr>companies = Some deactivated_companies,
      votes = Some \<lparr>t_rows = [], t_next_id = 1,
                    t_email_key = Some ''votes_new_voter_email_key'',
                    t_phone_key = Some ''votes_new_voter_phone_key''\<rparr>,
      votes_new = None, votes_old = None,
      int_spellings = (\<lambda>s. None)\<rparr>"


text \<open>The atoms of a regular expression.\<close>

fun atoms :: "rexp \<Rightarrow> atom set" where
  "atoms Zero = {}"
| "atoms One = {}"
| "atoms (Atom a) = {a}"
| "atoms (Alt r s) = atoms r \<union> atoms s"
| "atoms (Times r s) = atoms r \<union> atoms s"
| "atoms (Star r) = atoms r"

text \<open>Whether the table \<open>votes\<close> exists and carries the uniqueness constraint on the email.\<close>

definition email_keyed :: "db \<Rightarrow> bool" where
  "email_keyed d = (case votes d of None \<Rightarrow> False | Some t \<Rightarrow> t_email_key t \<noteq> None)"

text \<open>
  A store in which the deactivated company holds one of the two votes, and one in which
  three active companies hold one vote each.
\<close>

definition split_db :: db where
  "split_db =
     \<lparr>companies = Some deactivated_companies,
      votes = Some \<lparr>t_rows =
          [\<lparr>v_id = 1, voter_name = ''Ana Silva'', voter_email = ''ana@x.com'',
            voter_phone = ''555-0001'', company_id = Some 1\<rparr>,
           \<lparr>v_id = 2, voter_name = ''Bo Li'', voter_email = ''bo@x.com'',
            voter_phone = ''555-0002'', company_id = Some 2\<rparr>],
          t_next_id = 3,
          t_email_key = Some ''votes_new_voter_email_key'',
          t_phone_key = Some ''votes_new_voter_phone_key''\<rparr>,
      votes_new = None, votes_old = None,
      int_spellings = (\<lambda>s. None)\<rparr>"

definition all_active_db :: db where
  "all_active_db =
     \<lparr>companies = Some \<lparr>ct_rows =
         [\<lparr>c_id = 1, c_name = ''Apple'', c_website = None, c_logo_url = None, c_active = True\<rparr>,
          \<lparr>c_id = 2, c_name = ''Google'', c_website = None, c_logo_url = None, c_active = True\<rparr>,
          \<lparr>c_id = 3, c_name = ''Acme'', c_website = None, c_logo_url = None, c_active = True\<rparr>],
         ct_next_id = 4\<rparr>,
      votes = Some \<lparr>t_rows =
          [\<lparr>v_id = 1, voter_name = ''Ana Silva'', voter_email = ''ana@x.com'',
            voter_phone = ''555-0001'', company_id = Some 1\<rparr>,
           \<lparr>v_id = 2, voter_name = ''Bo Li'', voter_email = ''bo@x.com'',
            voter_phone = ''555-0002'', company_id = Some 2\<rparr>,
           \<lparr>v_id = 3, voter_name = ''Cy Ng'', voter_email = ''cy@x.com'',
            voter_phone = ''555-0003'', company_id = Some 3\<rparr>],
          t_next_id = 4,
          t_email_key = Some ''votes_new_voter_email_key'',
          t_phone_key = Some ''votes_new_voter_phone_key''\<rparr>,
      votes_new = None, votes_old = None,
      int_spellings = (\<lambda>s. None)\<rparr>"

text \<open>Every vote refers to an active company.\<close>

definition votes_reference_active :: "db \<Rightarrow> bool" where
  "votes_reference_active d =
     (\<forall>v \<in> set (vote_rows d). \<exists>c \<in> set (company_rows d). c_active c \<and> company_id v = Some (c_id c))"

text \<open>The percentage the response shows for a row of the query.\<close>

definition pct_of :: "lb_row \<Rightarrow> rat" where
  "pct_of r = (case lr_percentage r of None \<Rightarrow> 0 | Some q \<Rightarrow> q)"

text \<open>How many companies bear a name, and whether no two companies share one.\<close>

definition count_named :: "string \<Rightarrow> db \<Rightarrow> nat" where
  "count_named nm d = length (filter (\<lambda>c. c_name c = nm) (company_rows d))"

definition names_unique :: "db \<Rightarrow> bool" where
  "names_unique d = distinct (map c_name (company_rows d))"

text \<open>
  A run of \<open>initDB\<close> reaches and completes the seeding when the two \<open>CREATE TABLE\<close>
  statements and the seeding statement meet no fault.
\<close>

definition seeding_runs :: "init_faults \<Rightarrow> bool" where
  "seeding_runs f =
     (f_create_companies f = None \<and> f_create_votes_new f = None \<and> f_seed f = None)"

text \<open>Faults of a run in which the connection is lost at the last statement of the renames.\<close>

definition broken_rename :: init_faults where
  "broken_rename = no_faults\<lparr>f_rename_new := Some (PgError ''08006'' None)\<rparr>"






text \<open>A run of the older handler without faults, and a submission with a padded name.\<close>

definition quiet_hist_env :: hist_env where
  "quiet_hist_env = \<lparr>hf_precheck = None, hf_select = None, hf_insert = None\<rparr>"

definition ana_padded :: vote_body where
  "ana_padded = \<lparr>voterName = JStr '' Ana Silva '', voterEmail = JStr ''Ana@X.com'',
                 voterPhone = JStr ''555-0001'', companyVote = JNum 1\<rparr>"

text \<open>The code units below 256 that \<open>toLowerCase\<close> changes.\<close>

definition is_upper :: "char \<Rightarrow> bool" where
  "is_upper c =
     ((65 \<le> (of_char c :: nat) \<and> (of_char c :: nat) \<le> 90)
      \<or> (192 \<le> (of_char c :: nat) \<and> (of_char c :: nat) \<le> 222 \<and> (of_char c :: nat) \<noteq> 215))"

text \<open>A stand-in for the client's rendering of a parameter: a string goes as it is.\<close>

definition as_sent :: "json \<Rightarrow> string" where
  "as_sent v = (case v of JStr s \<Rightarrow> s | _ \<Rightarrow> [])"

text \<open>
  Submissions whose email is an object with a key \<open>toString\<close>, whose email is the stored one
  in capitals, and whose company identifier is no integer.
\<close>

definition object_email :: vote_body where
  "object_email = ana_first\<lparr>voterEmail := JObj [(''toString'', JNum 1)]\<rparr>"

definition ana_capitals :: vote_body where
  "ana_capitals = \<lparr>voterName = JStr ''Ana S.'', voterEmail = JStr ''ANA@X.COM'',
                   voterPhone = JStr ''555-0003'', companyVote = JNum 2\<rparr>"

definition abc_company :: vote_body where
  "abc_company = ana_first\<lparr>companyVote := JStr ''abc''\<rparr>"

definition big_company :: vote_body where
  "big_company = ana_first\<lparr>companyVote := JNum 2147483648\<rparr>"

section \<open>Basic facts\<close>

lemma missing_not_truthy: "missing_or_empty v \<Longrightarrow> \<not> truthy v"
  by (auto simp: missing_or_empty_def)

lemma nullable_sound: "nullable r \<Longrightarrow> [] \<in> lang r"
  by (induction r) (auto intro: star.star_nil)

lemma lang_TimesI: "u \<in> lang r \<Longrightarrow> v \<in> lang s \<Longrightarrow> u @ v \<in> lang (Times r s)"
  by auto

lemma deriv_sound: "s \<in> lang (deriv c r) \<Longrightarrow> c # s \<in> lang r"
proof (induction r arbitrary: s)
  case (Times r1 r2)
  show ?case
  proof (cases "nullable r1")
    case True
    with Times.prems consider
      (l) u v where "s = u @ v" "u \<in> lang (deriv c r1)" "v \<in> lang r2"
      | (r) "s \<in> lang (deriv c r2)"
      by auto
    then show ?thesis
    proof cases
      case l
      then have "c # u \<in> lang r1" using Times.IH(1) by blast
      with l have "(c # u) @ v \<in> lang (Times r1 r2)" by (intro lang_TimesI)
      with l show ?thesis by simp
    next
      case r
      then have "c # s \<in> lang r2" using Times.IH(2) by blast
      moreover have "[] \<in> lang r1" using True by (rule nullable_sound)
      ultimately have "[] @ (c # s) \<in> lang (Times r1 r2)" by (intro lang_TimesI)
      then show ?thesis by simp
    qed
  next
    case False
    with Times.prems obtain u v where l: "s = u @ v" "u \<in> lang (deriv c r1)" "v \<in> lang r2"
      by auto
    then have "c # u \<in> lang r1" using Times.IH(1) by blast
    with l have "(c # u) @ v \<in> lang (Times r1 r2)" by (intro lang_TimesI)
    with l show ?thesis by simp
  qed
next
  case (Star r)
  then obtain u v where l: "s = u @ v" "u \<in> lang (deriv c r)" "v \<in> star (lang r)"
    by auto
  then have "c # u \<in> lang r" using Star.IH by blast
  with l have "(c # u) @ v \<in> star (lang r)" by (intro star.star_app)
  with l show ?case by simp
qed (auto split: if_splits)

lemma matches_sound: "matches r s \<Longrightarrow> s \<in> lang r"
  by (induction s arbitrary: r) (auto intro: nullable_sound deriv_sound)

lemma star_chars:
  assumes "s \<in> star A" "\<And>u. u \<in> A \<Longrightarrow> \<forall>c \<in> set u. P c"
  shows "\<forall>c \<in> set s. P c"
  using assms by (induction rule: star.induct) auto

lemma lang_chars:
  assumes "s \<in> lang r" "\<And>a c. a \<in> atoms r \<Longrightarrow> atom_ok a c \<Longrightarrow> P c"
  shows "\<forall>c \<in> set s. P c"
  using assms
proof (induction r arbitrary: s)
  case (Star r)
  show ?case
  proof (rule star_chars[of s "lang r"])
    show "s \<in> star (lang r)" using Star.prems(1) by simp
    fix u assume "u \<in> lang r"
    then show "\<forall>c \<in> set u. P c" using Star.IH Star.prems(2) by auto
  qed
qed fastforce+

lemma email_no_space:
  assumes "emailRegex_test (JStr e) = Inr True"
  shows "\<forall>c \<in> set e. \<not> is_space c"
proof (rule lang_chars[of e emailRegex])
  show "e \<in> lang emailRegex" using assms by (simp add: emailRegex_test_def matches_sound)
  fix a c assume "a \<in> atoms emailRegex" "atom_ok a c"
  then show "\<not> is_space c"
    by (auto simp: emailRegex_def Plus_def is_space_def)
qed

lemma dropWhile_none: "\<forall>c \<in> set xs. \<not> P c \<Longrightarrow> dropWhile P xs = xs"
  by (cases xs) auto

lemma trim_no_space: "\<forall>c \<in> set s. \<not> is_space c \<Longrightarrow> trim s = s"
  by (simp add: trim_def dropWhile_none)

lemma lower_char_space: "\<not> is_space c \<Longrightarrow> \<not> is_space (lower_char c)"
  by (auto simp: is_space_def lower_char_def Let_def)

lemma email_clean:
  assumes "emailRegex_test (JStr e) = Inr True"
  shows "trim (toLowerCase e) = toLowerCase e" "trim e = e"
  using email_no_space[OF assms]
  by (auto intro!: trim_no_space simp: toLowerCase_def lower_char_space)

text \<open>What \<open>trim\<close> and \<open>toLowerCase\<close> do to a string.\<close>

lemma trim_split:
  "\<exists>l r. s = l @ trim s @ r \<and> (\<forall>c \<in> set l. is_space c) \<and> (\<forall>c \<in> set r. is_space c)"
proof -
  define m where "m = dropWhile is_space s"
  have 1: "s = takeWhile is_space s @ m" by (simp add: m_def)
  have "takeWhile is_space (rev m) @ dropWhile is_space (rev m) = rev m"
    by (rule takeWhile_dropWhile_id)
  then have "rev (takeWhile is_space (rev m) @ dropWhile is_space (rev m)) = rev (rev m)"
    by (rule arg_cong)
  then have "rev (dropWhile is_space (rev m)) @ rev (takeWhile is_space (rev m)) = m"
    by (simp only: rev_append rev_rev_ident)
  then have 2: "m = trim s @ rev (takeWhile is_space (rev m))"
    by (simp only: trim_def m_def)
  have 3: "\<forall>c \<in> set (takeWhile is_space s). is_space c"
    "\<forall>c \<in> set (rev (takeWhile is_space (rev m))). is_space c"
    by (auto dest: set_takeWhileD)
  from 1 2 have "s = takeWhile is_space s @ trim s @ rev (takeWhile is_space (rev m))" by simp
  with 3 show ?thesis by blast
qed

lemma trim_ends:
  assumes "trim s \<noteq> []"
  shows "\<not> is_space (hd (trim s))" "\<not> is_space (last (trim s))"
proof -
  define m where "m = dropWhile is_space s"
  define k where "k = dropWhile is_space (rev m)"
  have t: "trim s = rev k" by (simp add: trim_def m_def k_def)
  with assms have k: "k \<noteq> []" by simp
  then have "\<not> is_space (hd k)" unfolding k_def by (rule hd_dropWhile)
  then show "\<not> is_space (last (trim s))" using k by (simp add: t last_rev)
  from k have rm: "rev m \<noteq> []" by (auto simp: k_def)
  have "last k = last (rev m)" using k unfolding k_def
    by (metis append_Nil2 last_appendR takeWhile_dropWhile_id)
  also have "\<dots> = hd m" using rm by (simp add: last_rev)
  finally have "hd (trim s) = hd m" using k by (simp add: t hd_rev)
  moreover have "\<not> is_space (hd m)"
  proof -
    from rm have "dropWhile is_space s \<noteq> []" by (simp add: m_def)
    then show ?thesis unfolding m_def by (rule hd_dropWhile)
  qed
  ultimately show "\<not> is_space (hd (trim s))" by simp
qed

lemma lower_char_not_upper: "\<not> is_upper (lower_char c)"
  by (auto simp: is_upper_def lower_char_def Let_def)

lemma lower_char_fixed: "\<not> is_upper c \<Longrightarrow> lower_char c = c"
  by (auto simp: is_upper_def lower_char_def Let_def)

lemma toLowerCase_no_upper: "\<forall>c \<in> set (toLowerCase s). \<not> is_upper c"
  by (simp add: toLowerCase_def lower_char_not_upper)

text \<open>A string without a trailing blank fits \<open>VARCHAR(n)\<close> unchanged, or not at all.\<close>

lemma varchar_unchanged:
  assumes "s \<noteq> [] \<longrightarrow> \<not> is_space (last s)"
  shows "varchar n s = (if length s \<le> n then Inr s else Inl (PgError ''22001'' None))"
proof (cases "length s \<le> n")
  case True
  then show ?thesis by (simp add: varchar_def)
next
  case False
  then have d: "drop n s \<noteq> []" by simp
  then have "last (drop n s) = last s" by simp
  moreover have "is_space (CHR '' '')" by (simp add: is_space_def)
  moreover from False have "s \<noteq> []" by auto
  ultimately have "last (drop n s) \<noteq> CHR '' ''" using assms by metis
  with d have "\<not> (\<forall>c \<in> set (drop n s). c = CHR '' '')" using last_in_set by blast
  with False show ?thesis by (simp add: varchar_def)
qed

lemma varchar_trim: "varchar n (trim s) = (if length (trim s) \<le> n then Inr (trim s) else Inl (PgError ''22001'' None))"
  by (rule varchar_unchanged) (simp add: trim_ends)

lemma varchar_short: "length s \<le> n \<Longrightarrow> varchar n s = Inr s"
  by (simp add: varchar_def)

lemma query_select_store: "snd (query flt (select_company p) d) = d"
  by (simp add: query_def select_company_def split: option.splits sum.splits)

lemma query_Inr: "query flt st d = (Inr x, d2) \<Longrightarrow> flt = None \<and> st d = (Inr x, d2)"
  by (cases flt) (auto simp: query_def)

lemma vote_catch_not_201: "vote_catch e \<noteq> Response 201 bd"
  by (simp add: vote_catch_def)

lemma vote_catch_23505: "\<exists>m. vote_catch (PgError ''23505'' kn) = Response 400 (Error m)"
  by (simp add: vote_catch_def)

lemma vote_catch_500:
  "err_code e \<noteq> Some ''23505'' \<Longrightarrow> vote_catch e = Response 500 (Error ''Failed to submit vote'')"
  by (simp add: vote_catch_def)

lemma send_never_rejects: "fst (sendToGoogleSheets u fr vd) \<noteq> Rejected e"
  by (simp add: sendToGoogleSheets_def Let_def split: option.splits fetch_result.splits)


text \<open>The paths of the vote handler.\<close>

lemma post_api_vote_cases:
  fixes env b d
  defines "r \<equiv> post_api_vote env b d"
  obtains
    (early) "queries r = []" "store r = d" "posted r = []"
      "res r = Response 400 (Error ''All fields are required'')
       \<or> res r = Response 400 (Error ''Invalid email format'') \<or> res r = Thrown"
  | (failed) err e p where "voterEmail b = JStr e" "voterPhone b = JStr p"
      "query (f_select env) (select_company (companyVote b)) d = (Inl err, d)"
      "res r = vote_catch err" "store r = d" "queries r = [SelectCompany (companyVote b)]"
      "posted r = []"
  | (none) e p where "voterEmail b = JStr e" "voterPhone b = JStr p"
      "query (f_select env) (select_company (companyVote b)) d = (Inr [], d)"
      "res r = Response 400 (Error ''Invalid company selection'')" "store r = d"
      "queries r = [SelectCompany (companyVote b)]" "posted r = []"
  | (name) c cs e p where "voterEmail b = JStr e" "voterPhone b = JStr p"
      "\<forall>n. voterName b \<noteq> JStr n"
      "query (f_select env) (select_company (companyVote b)) d = (Inr (c # cs), d)"
      "res r = Response 500 (Error ''Failed to submit vote'')" "store r = d"
      "queries r = [SelectCompany (companyVote b)]" "posted r = []"
  | (insert) n e p c cs r2 d2 where
      "voterName b = JStr n" "voterEmail b = JStr e" "voterPhone b = JStr p"
      "n \<noteq> []" "e \<noteq> []" "p \<noteq> []" "truthy (companyVote b)" "emailRegex_test (JStr e) = Inr True"
      "query (f_select env) (select_company (companyVote b)) d = (Inr (c # cs), d)"
      "query (f_insert env)
         (insert_vote (trim n) (trim (toLowerCase e)) (trim p) (companyVote b)) d = (r2, d2)"
      "store r = d2"
      "queries r = [SelectCompany (companyVote b),
                    InsertVote (trim n) (trim (toLowerCase e)) (trim p) (companyVote b)]"
      "res r = (case r2 of Inl err \<Rightarrow> vote_catch err
                | Inr vid \<Rightarrow> Response 201 (VoteSubmitted ''Vote submitted successfully'' vid))"
      "\<And>vid. r2 = Inr vid \<Longrightarrow>
         posted r = fst (snd (sendToGoogleSheets (webhook_url env) (webhook_fetch env)
               \<lparr>vd_voterName = trim n, vd_voterEmail = trim (toLowerCase e),
                vd_voterPhone = trim p, vd_companyName = c_name c,
                vd_companyWebsite = c_website c, vd_voteId = vid\<rparr>))
         \<and> logged r = snd (snd (sendToGoogleSheets (webhook_url env) (webhook_fetch env)
               \<lparr>vd_voterName = trim n, vd_voterEmail = trim (toLowerCase e),
                vd_voterPhone = trim p, vd_companyName = c_name c,
                vd_companyWebsite = c_website c, vd_voteId = vid\<rparr>))"
proof (cases "truthy (voterName b) \<and> truthy (voterEmail b) \<and> truthy (voterPhone b)
              \<and> truthy (companyVote b) \<and> emailRegex_test (voterEmail b) = Inr True")
  case False
  then have "queries r = []" "store r = d" "posted r = []"
      "res r = Response 400 (Error ''All fields are required'')
       \<or> res r = Response 400 (Error ''Invalid email format'') \<or> res r = Thrown"
    by (auto simp: r_def post_api_vote_def split: sum.splits bool.splits)
  then show ?thesis by (rule early)
next
  case True
  then have t: "truthy (voterName b)" "truthy (voterEmail b)" "truthy (voterPhone b)"
    "truthy (companyVote b)" "emailRegex_test (voterEmail b) = Inr True"
    by simp_all
  show ?thesis
  proof (cases "\<exists>e p. voterEmail b = JStr e \<and> voterPhone b = JStr p")
    case False
    with t have "queries r = []" "store r = d" "posted r = []" "res r = Thrown"
      by (auto simp: r_def post_api_vote_def split: json.splits)
    then show ?thesis by (intro early) simp_all
  next
    case True
    then obtain e p where ep: "voterEmail b = JStr e" "voterPhone b = JStr p" by blast
    with t have ne: "e \<noteq> []" "p \<noteq> []" by auto
    define r1 where "r1 = fst (query (f_select env) (select_company (companyVote b)) d)"
    have q1: "query (f_select env) (select_company (companyVote b)) d = (r1, d)"
      using query_select_store[of "f_select env" "companyVote b" d]
      by (simp add: r1_def prod_eq_iff)
    show ?thesis
    proof (cases r1)
      case (Inl err)
      with t ep q1 have "res r = vote_catch err" "store r = d"
        "queries r = [SelectCompany (companyVote b)]" "posted r = []"
        by (simp_all add: r_def post_api_vote_def Let_def)
      with ep q1 Inl show ?thesis by (intro failed[of e p err]) simp_all
    next
      case (Inr rows)
      show ?thesis
      proof (cases rows)
        case Nil
        with t ep q1 Inr have "res r = Response 400 (Error ''Invalid company selection'')"
          "store r = d" "queries r = [SelectCompany (companyVote b)]" "posted r = []"
          by (simp_all add: r_def post_api_vote_def Let_def)
        with ep q1 Inr Nil show ?thesis by (intro none[of e p]) simp_all
      next
        case (Cons c cs)
        show ?thesis
        proof (cases "\<exists>n. voterName b = JStr n")
          case False
          with t ep q1 Inr Cons have "res r = Response 500 (Error ''Failed to submit vote'')"
            "store r = d" "queries r = [SelectCompany (companyVote b)]" "posted r = []"
            by (cases "voterName b";
                simp add: r_def post_api_vote_def Let_def vote_catch_def)+
          with ep q1 Inr Cons False show ?thesis by (intro name[of e p c cs]) simp_all
        next
          case True
          then obtain n where n: "voterName b = JStr n" by blast
          with t have nn: "n \<noteq> []" by auto
          define r2 where "r2 = fst (query (f_insert env)
            (insert_vote (trim n) (trim (toLowerCase e)) (trim p) (companyVote b)) d)"
          define d2 where "d2 = snd (query (f_insert env)
            (insert_vote (trim n) (trim (toLowerCase e)) (trim p) (companyVote b)) d)"
          have q2: "query (f_insert env)
            (insert_vote (trim n) (trim (toLowerCase e)) (trim p) (companyVote b)) d = (r2, d2)"
            by (simp add: r2_def d2_def)
          have s: "\<And>vd err. fst (sendToGoogleSheets (webhook_url env) (webhook_fetch env) vd)
                      \<noteq> Rejected err"
            by (rule send_never_rejects)
          have a: "store r = d2"
            "queries r = [SelectCompany (companyVote b),
                    InsertVote (trim n) (trim (toLowerCase e)) (trim p) (companyVote b)]"
            "res r = (case r2 of Inl err \<Rightarrow> vote_catch err
                | Inr vid \<Rightarrow> Response 201 (VoteSubmitted ''Vote submitted successfully'' vid))"
            using t ep n q1 Inr Cons q2
            by (cases r2; simp add: r_def post_api_vote_def Let_def split_beta)+
          have b: "posted r = fst (snd (sendToGoogleSheets (webhook_url env) (webhook_fetch env)
               \<lparr>vd_voterName = trim n, vd_voterEmail = trim (toLowerCase e),
                vd_voterPhone = trim p, vd_companyName = c_name c,
                vd_companyWebsite = c_website c, vd_voteId = vid\<rparr>))
         \<and> logged r = snd (snd (sendToGoogleSheets (webhook_url env) (webhook_fetch env)
               \<lparr>vd_voterName = trim n, vd_voterEmail = trim (toLowerCase e),
                vd_voterPhone = trim p, vd_companyName = c_name c,
                vd_companyWebsite = c_website c, vd_voteId = vid\<rparr>))"
            if "r2 = Inr vid" for vid
            using t ep n q1 Inr Cons q2 that
              s[of "\<lparr>vd_voterName = trim n, vd_voterEmail = trim (toLowerCase e),
                vd_voterPhone = trim p, vd_companyName = c_name c,
                vd_companyWebsite = c_website c, vd_voteId = vid\<rparr>"]
            by (simp add: r_def post_api_vote_def Let_def split_beta split: settled.splits)
          from t ep have e1: "emailRegex_test (JStr e) = Inr True" by simp
          show ?thesis
            using n ep nn ne t(4) e1 q1[unfolded Inr Cons] q2 a b
            by (intro insert[of n e p c cs r2 d2]) simp_all
        qed
      qed
    qed
  qed
qed

text \<open>What a 201 answer of the vote handler tells about the run that produced it.\<close>

lemma post_api_vote_201:
  assumes "res (post_api_vote env b d) = Response 201 bd"
  shows "\<exists>n e p c cs vid d2.
           voterName b = JStr n \<and> voterEmail b = JStr e \<and> voterPhone b = JStr p
         \<and> emailRegex_test (JStr e) = Inr True
         \<and> query (f_select env) (select_company (companyVote b)) d = (Inr (c # cs), d)
         \<and> query (f_insert env)
              (insert_vote (trim n) (trim (toLowerCase e)) (trim p) (companyVote b)) d = (Inr vid, d2)
         \<and> bd = VoteSubmitted ''Vote submitted successfully'' vid
         \<and> store (post_api_vote env b d) = d2
         \<and> queries (post_api_vote env b d) =
             [SelectCompany (companyVote b),
              InsertVote (trim n) (trim (toLowerCase e)) (trim p) (companyVote b)]
         \<and> posted (post_api_vote env b d) =
             fst (snd (sendToGoogleSheets (webhook_url env) (webhook_fetch env)
               \<lparr>vd_voterName = trim n, vd_voterEmail = trim (toLowerCase e),
                vd_voterPhone = trim p, vd_companyName = c_name c,
                vd_companyWebsite = c_website c, vd_voteId = vid\<rparr>))
         \<and> logged (post_api_vote env b d) =
             snd (snd (sendToGoogleSheets (webhook_url env) (webhook_fetch env)
               \<lparr>vd_voterName = trim n, vd_voterEmail = trim (toLowerCase e),
                vd_voterPhone = trim p, vd_companyName = c_name c,
                vd_companyWebsite = c_website c, vd_voteId = vid\<rparr>))"
proof (cases env b d rule: post_api_vote_cases)
  case early
  with assms show ?thesis by auto
next
  case (failed err e p)
  with assms show ?thesis by (simp add: vote_catch_not_201)
next
  case (none e p)
  with assms show ?thesis by simp
next
  case (name c cs e p)
  with assms show ?thesis by simp
next
  case (insert n e p c cs r2 d2)
  from assms insert(13) obtain vid where v: "r2 = Inr vid"
    "bd = VoteSubmitted ''Vote submitted successfully'' vid"
    by (cases r2) (auto simp: vote_catch_not_201)
  from insert(14)[OF v(1)] insert(1,2,3,8,9,11,12) insert(10)[unfolded v(1)] v(2)
  show ?thesis by blast
qed

text \<open>The \<open>INSERT\<close> into \<open>votes\<close>: what success tells, and what failure leaves.\<close>

lemma insert_vote_Inr:
  assumes "insert_vote nm em ph cv d = (Inr vid, d2)"
  shows "\<exists>t k name email phone.
             votes d = Some t \<and> pg_int4 (int_spellings d) cv = Inr k \<and> vid = t_next_id t
           \<and> varchar 255 nm = Inr name \<and> varchar 255 em = Inr email \<and> varchar 20 ph = Inr phone
           \<and> vote_rows d2 = vote_rows d @
                [\<lparr>v_id = vid, voter_name = name, voter_email = email, voter_phone = phone,
                  company_id = k\<rparr>]
           \<and> (t_email_key t \<noteq> None \<longrightarrow> (\<forall>v \<in> set (vote_rows d). voter_email v \<noteq> email))
           \<and> (t_phone_key t \<noteq> None \<longrightarrow> (\<forall>v \<in> set (vote_rows d). voter_phone v \<noteq> phone))
           \<and> companies d2 = companies d \<and> int_spellings d2 = int_spellings d
           \<and> email_keyed d2 = email_keyed d"
  using assms
  by (auto simp: insert_vote_def vote_rows_def email_keyed_def Let_def
           split: option.splits sum.splits if_splits)

lemma insert_vote_trimmed_Inr:
  assumes "insert_vote (trim n) (trim e) (trim p) cv d = (Inr vid, d2)"
  shows "\<exists>t k.
             votes d = Some t \<and> pg_int4 (int_spellings d) cv = Inr k \<and> vid = t_next_id t
           \<and> length (trim n) \<le> 255 \<and> length (trim e) \<le> 255 \<and> length (trim p) \<le> 20
           \<and> vote_rows d2 = vote_rows d @
                [\<lparr>v_id = vid, voter_name = trim n, voter_email = trim e, voter_phone = trim p,
                  company_id = k\<rparr>]
           \<and> (t_email_key t \<noteq> None \<longrightarrow> (\<forall>v \<in> set (vote_rows d). voter_email v \<noteq> trim e))
           \<and> companies d2 = companies d \<and> int_spellings d2 = int_spellings d
           \<and> email_keyed d2 = email_keyed d"
proof -
  from insert_vote_Inr[OF assms] obtain t k name email phone where
    i: "votes d = Some t" "pg_int4 (int_spellings d) cv = Inr k" "vid = t_next_id t"
       "varchar 255 (trim n) = Inr name" "varchar 255 (trim e) = Inr email"
       "varchar 20 (trim p) = Inr phone"
       "vote_rows d2 = vote_rows d @
                [\<lparr>v_id = vid, voter_name = name, voter_email = email, voter_phone = phone,
                  company_id = k\<rparr>]"
       "t_email_key t \<noteq> None \<longrightarrow> (\<forall>v \<in> set (vote_rows d). voter_email v \<noteq> email)"
       "companies d2 = companies d" "int_spellings d2 = int_spellings d"
       "email_keyed d2 = email_keyed d"
    by blast
  from i(4,5,6) have "name = trim n \<and> length (trim n) \<le> 255"
    "email = trim e \<and> length (trim e) \<le> 255" "phone = trim p \<and> length (trim p) \<le> 20"
    by (auto simp: varchar_trim split: if_splits)
  with i show ?thesis by auto
qed

lemma insert_vote_Inl:
  assumes "insert_vote nm em ph cv d = (Inl e, d2)"
  shows "vote_rows d2 = vote_rows d"
  using assms
  by (auto simp: insert_vote_def vote_rows_def Let_def split: option.splits sum.splits if_splits)

lemma query_Inl_rows:
  assumes "query flt (insert_vote nm em ph cv) d = (Inl e, d2)"
  shows "vote_rows d2 = vote_rows d"
  using assms by (cases flt) (auto simp: query_def dest: insert_vote_Inl)

lemma insert_vote_dup:
  assumes "email_keyed d" "\<exists>v \<in> set (vote_rows d). voter_email v = em"
    "pg_int4 (int_spellings d) cv = Inr k"
    "length nm \<le> 255" "length em \<le> 255" "length ph \<le> 20"
  shows "\<exists>kn d2. insert_vote nm em ph cv d = (Inl (PgError ''23505'' kn), d2)"
  using assms
  by (auto simp: insert_vote_def vote_rows_def email_keyed_def Let_def varchar_short
           split: option.splits)

lemma vote_rows_kept:
  "vote_rows (store (post_api_vote env b d)) = vote_rows d
   \<or> (\<exists>bd. res (post_api_vote env b d) = Response 201 bd)"
proof (cases env b d rule: post_api_vote_cases)
  case (insert n e p c cs r2 d2)
  then show ?thesis by (cases r2) (auto dest: query_Inl_rows)
qed simp_all

lemma select_company_Inr:
  assumes "select_company p d = (Inr rows, d')"
  shows "\<forall>c \<in> set rows. c \<in> set (company_rows d) \<and> c_active c
           \<and> pg_int4 (int_spellings d) p = Inr (Some (c_id c))"
  using assms
  by (auto simp: select_company_def company_rows_def split: option.splits sum.splits)

lemma select_company_ok:
  assumes "companies d = Some ct" "pg_int4 (int_spellings d) p = Inr k"
  shows "\<exists>rows. select_company p d = (Inr rows, d)"
  using assms by (cases k) (auto simp: select_company_def)


text \<open>Without a matching active company no \<open>INSERT\<close> is sent.\<close>

lemma no_match_no_insert:
  assumes "\<forall>c \<in> set (company_rows d). c_active c \<longrightarrow>
             pg_int4 (int_spellings d) (companyVote b) \<noteq> Inr (Some (c_id c))"
  shows "store (post_api_vote env b d) = d"
    and "queries (post_api_vote env b d) = []
         \<or> queries (post_api_vote env b d) = [SelectCompany (companyVote b)]"
    and "res (post_api_vote env b d) \<noteq> Response 201 bd"
proof -
  have n: "query (f_select env) (select_company (companyVote b)) d \<noteq> (Inr (c # cs), d)" for c cs
  proof
    assume "query (f_select env) (select_company (companyVote b)) d = (Inr (c # cs), d)"
    from query_Inr[OF this] have "select_company (companyVote b) d = (Inr (c # cs), d)" by simp
    from select_company_Inr[OF this] assms show False by auto
  qed
  show "store (post_api_vote env b d) = d"
    by (cases env b d rule: post_api_vote_cases) (use n in auto)
  show "queries (post_api_vote env b d) = []
         \<or> queries (post_api_vote env b d) = [SelectCompany (companyVote b)]"
    by (cases env b d rule: post_api_vote_cases) (use n in auto)
  show "res (post_api_vote env b d) \<noteq> Response 201 bd"
    by (cases env b d rule: post_api_vote_cases) (use n in \<open>auto simp: vote_catch_not_201\<close>)
qed

text \<open>A vote whose normalized email is already stored under the constraint is not stored.\<close>

lemma stored_email_not_again:
  assumes "email_keyed d" "voterEmail b = JStr e"
    "\<exists>v \<in> set (vote_rows d). voter_email v = trim (toLowerCase e)"
  shows "res (post_api_vote env b d) \<noteq> Response 201 bd"
    and "vote_rows (store (post_api_vote env b d)) = vote_rows d"
proof -
  show n: "res (post_api_vote env b d) \<noteq> Response 201 bd" for bd
  proof
    assume a: "res (post_api_vote env b d) = Response 201 bd"
    from post_api_vote_201[OF a] assms(2) obtain n p vid d2 where
      "query (f_insert env)
         (insert_vote (trim n) (trim (toLowerCase e)) (trim p) (companyVote b)) d = (Inr vid, d2)"
      by auto
    from query_Inr[OF this] have
      "insert_vote (trim n) (trim (toLowerCase e)) (trim p) (companyVote b) d = (Inr vid, d2)"
      by simp
    from insert_vote_trimmed_Inr[OF this] obtain t where
      "votes d = Some t"
      "t_email_key t \<noteq> None \<longrightarrow>
         (\<forall>v \<in> set (vote_rows d). voter_email v \<noteq> trim (toLowerCase e))"
      by blast
    with assms(1,3) show False by (auto simp: email_keyed_def)
  qed
  then show "vote_rows (store (post_api_vote env b d)) = vote_rows d"
    using vote_rows_kept[of env b d] by blast
qed

text \<open>Sums of percentages: sorting keeps the sum, rounding moves each term by at most 0.05.\<close>

lemma sum_list_insort_key:
  "sum_list (map f (insort_key k x xs)) = f x + sum_list (map f xs)"
  for f :: "'a \<Rightarrow> rat"
  by (induction xs) (simp_all add: add.left_commute)

lemma sum_list_sort_key:
  "sum_list (map f (sort_key k xs)) = sum_list (map f xs)"
  for f :: "'a \<Rightarrow> rat"
  by (induction xs) (simp_all add: sort_key_def sum_list_insort_key)

lemma percentages_map:
  "map li_percentage (map lb_item_of (enumerate n rows)) = map pct_of rows"
  by (induction rows arbitrary: n) (simp_all add: lb_item_of_def pct_of_def)

lemma round_half_near:
  fixes x :: rat
  shows "\<bar>of_int \<lfloor>x * 10 + 1 / 2\<rfloor> / 10 - x\<bar> \<le> 1 / 20"
proof -
  define f :: rat where "f = of_int \<lfloor>x * 10 + 1 / 2\<rfloor>"
  have "f \<le> x * 10 + 1 / 2" "x * 10 + 1 / 2 < f + 1"
    unfolding f_def by linarith+
  then have "\<bar>f / 10 - x\<bar> \<le> 1 / 20" by linarith
  then show ?thesis by (simp add: f_def)
qed

lemma pg_round1_near: "\<bar>pg_round1 q - q\<bar> \<le> 1 / 20"
proof (cases "0 \<le> q")
  case True
  then show ?thesis using round_half_near[of q] by (simp add: pg_round1_def)
next
  case False
  have "\<bar>- (of_int \<lfloor>- q * 10 + 1 / 2\<rfloor> / 10) - q\<bar> = \<bar>of_int \<lfloor>(- q) * 10 + 1 / 2\<rfloor> / 10 - (- q)\<bar>"
    by linarith
  then show ?thesis using False round_half_near[of "- q"] by (simp add: pg_round1_def)
qed

lemma sum_list_near:
  fixes f g :: "'a \<Rightarrow> rat"
  assumes "\<forall>x \<in> set xs. \<bar>f x - g x\<bar> \<le> e"
  shows "\<bar>sum_list (map f xs) - sum_list (map g xs)\<bar> \<le> of_nat (length xs) * e"
  using assms
proof (induction xs)
  case Nil
  then show ?case by simp
next
  case (Cons x xs)
  then have "\<bar>f x - g x\<bar> \<le> e" "\<bar>sum_list (map f xs) - sum_list (map g xs)\<bar> \<le> of_nat (length xs) * e"
    by simp_all
  then show ?case by (simp add: algebra_simps abs_le_iff)
qed

lemma one_company_matches:
  assumes "distinct (map c_id cs)"
  shows "sum_list (map (\<lambda>c'. if k = c_id c' then (1::nat) else 0) cs)
           = (if k \<in> c_id ` set cs then 1 else 0)"
  using assms by (induction cs) auto

lemma count_votes_Cons:
  "count_votes (v # vs) k = (if company_id v = Some k then 1 else 0) + count_votes vs k"
  by (simp add: count_votes_def)

lemma counts_add_up:
  assumes "distinct (map c_id cs)"
    and "\<forall>v \<in> set vs. \<exists>c \<in> set cs. company_id v = Some (c_id c)"
  shows "sum_list (map (\<lambda>c. count_votes vs (c_id c)) cs) = length vs"
  using assms(2)
proof (induction vs)
  case Nil
  then show ?case by (simp add: count_votes_def)
next
  case (Cons v vs)
  then obtain c where c: "c \<in> set cs" "company_id v = Some (c_id c)" by auto
  have "sum_list (map (\<lambda>c'. if company_id v = Some (c_id c') then (1::nat) else 0) cs) = 1"
    using one_company_matches[OF assms(1), of "c_id c"] c by simp
  moreover have "sum_list (map (\<lambda>c. count_votes vs (c_id c)) cs) = length vs"
    using Cons by simp
  ultimately show ?case
    by (simp add: count_votes_Cons sum_list_addf)
qed

lemma exact_shares_sum:
  assumes "sum_list (map (\<lambda>c. count_votes vs (c_id c)) cs) = length vs" "vs \<noteq> []"
  shows "sum_list (map (\<lambda>c. rat_of_nat (count_votes vs (c_id c)) * 100 / rat_of_nat (length vs)) cs) = 100"
proof -
  have "sum_list (map (\<lambda>c. rat_of_nat (count_votes vs (c_id c)) * (100 / rat_of_nat (length vs))) cs)
          = sum_list (map (\<lambda>c. rat_of_nat (count_votes vs (c_id c))) cs) * (100 / rat_of_nat (length vs))"
    by (rule sum_list_mult_const)
  also have "sum_list (map (\<lambda>c. rat_of_nat (count_votes vs (c_id c))) cs)
          = rat_of_nat (sum_list (map (\<lambda>c. count_votes vs (c_id c)) cs))"
    by (induction cs) simp_all
  also have "\<dots> = rat_of_nat (length vs)" using assms(1) by simp
  finally show ?thesis using assms(2) by simp
qed

lemma leaderboard_percentages:
  assumes "companies d = Some ct" "votes d = Some vt"
  shows "percentages (res (get_api_leaderboard None d))
           = map pct_of (sort_key (\<lambda>r. (- int (lr_vote_count r), lr_name r))
                 (map (lb_row_of (t_rows vt)) (filter c_active (ct_rows ct))))"
  using assms
  by (simp add: get_api_leaderboard_def query_def select_leaderboard_def Let_def percentages_map
        del: map_map)

lemma leaderboard_no_votes:
  assumes "total_votes d = 0"
  shows "\<forall>q \<in> set (percentages (res (get_api_leaderboard flt d))). q = 0"
proof (cases "flt = None \<and> companies d \<noteq> None \<and> votes d \<noteq> None")
  case True
  then obtain ct vt where t: "companies d = Some ct" "votes d = Some vt" by auto
  with assms have "t_rows vt = []" by (simp add: total_votes_def)
  then show ?thesis using True leaderboard_percentages[OF t]
    by (auto simp: pct_of_def lb_row_of_def)
next
  case False
  then show ?thesis
    by (auto simp: get_api_leaderboard_def query_def select_leaderboard_def
             split: option.splits)
qed

text \<open>\<open>initDB\<close>: the renames leave \<open>companies\<close> alone, the seeding keeps names unique.\<close>

lemma rename_sequence_companies: "companies (snd (rename_sequence f d)) = companies d"
  by (auto simp: rename_sequence_def query_def drop_votes_old_def rename_votes_to_old_def
        rename_new_to_votes_def split: option.splits)

lemma create_votes_new_companies: "companies (snd (create_votes_new d)) = companies d"
  by (auto simp: create_votes_new_def Let_def split: option.splits)

lemma create_votes_new_ok: "fst (create_votes_new d) = Inr ()"
  by (auto simp: create_votes_new_def Let_def split: option.splits)

lemma create_companies_ok: "fst (create_companies d) = Inr ()"
  by (auto simp: create_companies_def split: option.splits)

lemma initDB_seeded:
  assumes "seeding_runs f"
  shows "companies (fst (initDB f d)) = Some
           (seed_row ''Google'' ''https://google.com'' ''https://logo.clearbit.com/google.com''
             (seed_row ''Apple'' ''https://apple.com'' ''https://logo.clearbit.com/apple.com''
               (case companies d of None \<Rightarrow> \<lparr>ct_rows = [], ct_next_id = 1\<rparr> | Some t \<Rightarrow> t)))"
    and "\<exists>l. snd (initDB f d) = [l, ''Database initialized successfully'']"
proof -
  let ?t0 = "case companies d of None \<Rightarrow> \<lparr>ct_rows = [], ct_next_id = 1\<rparr> | Some t \<Rightarrow> t"
  obtain d1 where c1: "create_companies d = (Inr (), d1)"
    using create_companies_ok[of d] by (cases "create_companies d") simp
  obtain d2 where c2: "create_votes_new d1 = (Inr (), d2)"
    using create_votes_new_ok[of d1] by (cases "create_votes_new d1") simp
  obtain r d3 where r: "rename_sequence f d2 = (r, d3)"
    by (cases "rename_sequence f d2")
  have "companies d1 = Some ?t0"
    using c1 by (auto simp: create_companies_def split: option.splits)
  moreover have "companies d2 = companies d1"
    using create_votes_new_companies[of d1] c2 by simp
  moreover have "companies d3 = companies d2"
    using rename_sequence_companies[of f d2] r by simp
  ultimately have s: "seed_companies d3 = (Inr (), d3\<lparr>companies := Some
             (seed_row ''Google'' ''https://google.com'' ''https://logo.clearbit.com/google.com''
               (seed_row ''Apple'' ''https://apple.com'' ''https://logo.clearbit.com/apple.com''
                 ?t0))\<rparr>)"
    by (simp add: seed_companies_def)
  from assms c1 c2 r s show
    "companies (fst (initDB f d)) = Some
           (seed_row ''Google'' ''https://google.com'' ''https://logo.clearbit.com/google.com''
             (seed_row ''Apple'' ''https://apple.com'' ''https://logo.clearbit.com/apple.com''
               ?t0))"
    by (simp add: initDB_def seeding_runs_def query_def)
  from assms c1 c2 r s show "\<exists>l. snd (initDB f d) = [l, ''Database initialized successfully'']"
    by (simp add: initDB_def seeding_runs_def query_def)
qed

lemma seed_row_names:
  "c_name ` set (ct_rows (seed_row nm w l t)) = insert nm (c_name ` set (ct_rows t))"
  by (auto simp: seed_row_def Let_def)

lemma seed_row_distinct:
  "distinct (map c_name (ct_rows t)) \<Longrightarrow> distinct (map c_name (ct_rows (seed_row nm w l t)))"
  by (auto simp: seed_row_def Let_def)

lemma count_one:
  assumes "distinct (map c_name cs)" "nm \<in> c_name ` set cs"
  shows "length (filter (\<lambda>c. c_name c = nm) cs) = 1"
  using assms
proof (induction cs)
  case Nil
  then show ?case by simp
next
  case (Cons a cs)
  show ?case
  proof (cases "c_name a = nm")
    case True
    from Cons.prems(1) have "c_name a \<notin> c_name ` set cs" by simp
    with True have "\<forall>c \<in> set cs. c_name c \<noteq> nm" by blast
    then have "filter (\<lambda>c. c_name c = nm) cs = []" by (simp add: filter_empty_conv)
    with True show ?thesis by simp
  next
    case False
    with Cons.prems have "distinct (map c_name cs)" "nm \<in> c_name ` set cs" by auto
    with Cons.IH False show ?thesis by simp
  qed
qed

lemma initDB_default_names:
  assumes "seeding_runs f" "names_unique d"
  shows "names_unique (fst (initDB f d))"
    and "count_named ''Apple'' (fst (initDB f d)) = 1"
    and "count_named ''Google'' (fst (initDB f d)) = 1"
proof -
  let ?t0 = "case companies d of None \<Rightarrow> \<lparr>ct_rows = [], ct_next_id = 1\<rparr> | Some t \<Rightarrow> t"
  let ?t2 = "seed_row ''Google'' ''https://google.com'' ''https://logo.clearbit.com/google.com''
             (seed_row ''Apple'' ''https://apple.com'' ''https://logo.clearbit.com/apple.com'' ?t0)"
  have r: "company_rows (fst (initDB f d)) = ct_rows ?t2"
    using initDB_seeded(1)[OF assms(1), of d] by (simp add: company_rows_def)
  have "distinct (map c_name (ct_rows ?t0))"
    using assms(2) by (auto simp: names_unique_def company_rows_def split: option.splits)
  then have dn: "distinct (map c_name (ct_rows ?t2))"
    by (intro seed_row_distinct)
  then show "names_unique (fst (initDB f d))" by (simp add: names_unique_def r)
  have "''Apple'' \<in> c_name ` set (ct_rows ?t2)" "''Google'' \<in> c_name ` set (ct_rows ?t2)"
    by (simp_all add: seed_row_names)
  then show "count_named ''Apple'' (fst (initDB f d)) = 1"
    "count_named ''Google'' (fst (initDB f d)) = 1"
    using dn by (simp_all add: count_named_def r count_one)
qed

lemma startups_default_names:
  assumes "fs \<noteq> []" "\<forall>f \<in> set fs. seeding_runs f" "names_unique d"
  shows "count_named ''Apple'' (startups fs d) = 1 \<and> count_named ''Google'' (startups fs d) = 1"
  using assms
proof (induction fs arbitrary: d)
  case Nil
  then show ?case by simp
next
  case (Cons f fs)
  then have f: "seeding_runs f" by simp
  show ?case
  proof (cases "fs = []")
    case True
    then show ?thesis using initDB_default_names(2,3)[OF f Cons.prems(3)] by simp
  next
    case False
    then show ?thesis
      using Cons.IH[of "fst (initDB f d)"] Cons.prems(2) initDB_default_names(1)[OF f Cons.prems(3)]
      by simp
  qed
qed

lemma seeding_runs_rename_faults:
  "seeding_runs (f\<lparr>f_drop_old := x, f_rename_votes := y, f_rename_new := z\<rparr>) = seeding_runs f"
  by (simp add: seeding_runs_def)

lemma initDB_promotes:
  assumes "votes d = Some legacy" "votes_new d = None"
    "f_create_companies f = None" "f_create_votes_new f = None" "f_drop_old f = None"
    "f_rename_votes f = None" "f_rename_new f = None"
  shows "votes_old (fst (initDB f d)) = Some legacy \<and> votes_new (fst (initDB f d)) = None
       \<and> (\<exists>ek pk. votes (fst (initDB f d)) =
             Some \<lparr>t_rows = [], t_next_id = 1, t_email_key = Some ek, t_phone_key = Some pk\<rparr>)"
proof -
  define d1 where "d1 = snd (create_companies d)"
  have c1: "create_companies d = (Inr (), d1)"
    "votes d1 = votes d" "votes_new d1 = votes_new d" "votes_old d1 = votes_old d"
    by (auto simp: d1_def create_companies_def split: option.splits)
  define d2 where "d2 = snd (create_votes_new d1)"
  have c2: "create_votes_new d1 = (Inr (), d2)" "votes d2 = Some legacy" "votes_old d2 = votes_old d"
    using assms(1,2) c1(2,3,4) by (auto simp: d2_def create_votes_new_def Let_def)
  obtain ek pk where k: "votes_new d2 =
      Some \<lparr>t_rows = [], t_next_id = 1, t_email_key = Some ek, t_phone_key = Some pk\<rparr>"
    using assms(2) c1(3) by (auto simp: d2_def create_votes_new_def Let_def)
  define d3 where "d3 = snd (rename_sequence f d2)"
  have c3: "rename_sequence f d2 = (Inr (), d3)"
    "votes_old d3 = Some legacy" "votes_new d3 = None"
    "votes d3 = Some \<lparr>t_rows = [], t_next_id = 1, t_email_key = Some ek, t_phone_key = Some pk\<rparr>"
    using assms(5,6,7) c2(2) k
    by (auto simp: d3_def rename_sequence_def query_def drop_votes_old_def
          rename_votes_to_old_def rename_new_to_votes_def)
  define r4 where "r4 = fst (query (f_seed f) seed_companies d3)"
  define d4 where "d4 = snd (query (f_seed f) seed_companies d3)"
  have c4: "query (f_seed f) seed_companies d3 = (r4, d4)"
    "votes d4 = votes d3" "votes_new d4 = votes_new d3" "votes_old d4 = votes_old d3"
    by (auto simp: r4_def d4_def query_def seed_companies_def split: option.splits)
  have "fst (initDB f d) = d4"
    using assms(3,4) c1(1) c2(1) c3(1) c4(1)
    by (cases r4) (simp_all add: initDB_def query_def)
  with c3 c4 show ?thesis by simp
qed











lemma add_company_nameless:
  assumes "missing_or_empty (cb_name b) \<or> (\<exists>n. cb_name b = JStr n \<and> trim n = [])"
  shows "res (add_company logo flt b d) = Response 400 (Error ''Company name is required'')
       \<and> store (add_company logo flt b d) = d \<and> queries (add_company logo flt b d) = []"
  using assms by (auto simp: add_company_def missing_or_empty_def)



text \<open>
  The older handler of \<open>server.js\<close> validates as the current one does and rejects an unknown
  or deactivated company after its check for an earlier vote; it stores the values as they
  came, neither trimmed nor lower-cased.
\<close>

lemma server_js_validation:
  "(missing_or_empty (voterName b) \<or> missing_or_empty (voterEmail b)
      \<or> missing_or_empty (voterPhone b) \<or> missing_or_empty (companyVote b)
      \<or> companyVote b \<in> {JNum 0, JBool False}
    \<longrightarrow> res (post_api_vote_server_js pg_text env b d) = Response 400 (Error ''All fields are required'')
        \<and> queries (post_api_vote_server_js pg_text env b d) = []
        \<and> store (post_api_vote_server_js pg_text env b d) = d)
   \<and> (truthy (voterName b) \<and> truthy (voterEmail b) \<and> truthy (voterPhone b)
        \<and> truthy (companyVote b) \<and> emailRegex_test (voterEmail b) = Inr False
    \<longrightarrow> res (post_api_vote_server_js pg_text env b d) = Response 400 (Error ''Invalid email format'')
        \<and> queries (post_api_vote_server_js pg_text env b d) = []
        \<and> store (post_api_vote_server_js pg_text env b d) = d)"
  by (auto simp: post_api_vote_server_js_def dest: missing_not_truthy)

lemma server_js_unknown_company:
  assumes "truthy (voterName b)" "truthy (voterEmail b)" "truthy (voterPhone b)"
    "truthy (companyVote b)" "emailRegex_test (voterEmail b) = Inr True"
    "hf_precheck env = None" "hf_select env = None"
    "votes d = Some t" "\<forall>v \<in> set (t_rows t). voter_email v \<noteq> pg_text (voterEmail b)"
    "companies d = Some ct" "pg_int4 (int_spellings d) (companyVote b) = Inr (Some k)"
    "\<forall>c \<in> set (ct_rows ct). c_id c = k \<longrightarrow> \<not> c_active c"
  shows "res (post_api_vote_server_js pg_text env b d)
           = Response 400 (Error ''Invalid company selection'')
       \<and> store (post_api_vote_server_js pg_text env b d) = d
       \<and> queries (post_api_vote_server_js pg_text env b d)
           = [SelectVotesByEmail (pg_text (voterEmail b)), SelectCompany (companyVote b)]"
proof -
  from assms have p: "query (hf_precheck env) (select_votes_by_email (pg_text (voterEmail b))) d
                        = (Inr [], d)"
    by (auto simp: query_def select_votes_by_email_def filter_empty_conv)
  from assms have s: "query (hf_select env) (select_company (companyVote b)) d = (Inr [], d)"
    by (auto simp: query_def select_company_def filter_empty_conv)
  from assms(1-5) p s show ?thesis
    by (simp add: post_api_vote_server_js_def Let_def)
qed

lemma server_js_stores_raw_values:
  "vote_rows (store (post_api_vote_server_js as_sent quiet_hist_env ana_padded started_db))
     = [\<lparr>v_id = 1, voter_name = '' Ana Silva '', voter_email = ''Ana@X.com'',
         voter_phone = ''555-0001'', company_id = Some 1\<rparr>]"
  by code_simp

text \<open>The trimmed string is the only one that the description of trimming fits.\<close>

lemma trim_unique:
  assumes "s = l @ t @ r" "\<forall>c \<in> set l. is_space c" "\<forall>c \<in> set r. is_space c"
    "t \<noteq> [] \<longrightarrow> \<not> is_space (hd t) \<and> \<not> is_space (last t)"
  shows "trim s = t"
proof (cases "t = []")
  case True
  with assms have "\<forall>c \<in> set s. is_space c" by auto
  then have "trim s = []" by (auto simp: trim_def dest: set_dropWhileD)
  with True show ?thesis by simp
next
  case False
  with assms(4) have h: "\<not> is_space (hd t)" and e: "\<not> is_space (last t)" by simp_all
  from assms(2) have "dropWhile is_space s = dropWhile is_space (t @ r)"
    unfolding assms(1) by (intro dropWhile_append2) simp
  also from False h have "\<dots> = t @ r" by (cases t) simp_all
  finally have 1: "dropWhile is_space s = t @ r" .
  from assms(3) have "dropWhile is_space (rev r @ rev t) = dropWhile is_space (rev t)"
    by (intro dropWhile_append2) simp
  also from False e have "\<dots> = rev t"
    by (cases t rule: rev_cases) simp_all
  finally show ?thesis using 1 by (simp add: trim_def)
qed

lemma email_lower_clean:
  assumes "emailRegex_test (JStr e) = Inr True"
  shows "\<forall>c \<in> set (toLowerCase e). \<not> is_space c \<and> \<not> is_upper c"
proof -
  from email_no_space[OF assms] have "\<forall>c \<in> set (toLowerCase e). \<not> is_space c"
    using lower_char_space by (auto simp: toLowerCase_def)
  with toLowerCase_no_upper show ?thesis by blast
qed

lemma int4in_err_code:
  assumes "int4in other s = Inl err"
  shows "err = PgError ''22P02'' None \<or> err = PgError ''22003'' None"
proof -
  define A where "A = PgError ''22P02'' None"
  define B where "B = PgError ''22003'' None"
  define s1 where "s1 = dropWhile pg_space s"
  define s2 where "s2 = (if s1 \<noteq> [] \<and> (hd s1 = CHR ''-'' \<or> hd s1 = CHR ''+'') then tl s1 else s1)"
  define ds where "ds = takeWhile is_digit s2"
  define rest where "rest = dropWhile pg_space (dropWhile is_digit s2)"
  define v where "v = foldl (\<lambda>a c. 10 * a + (int (of_char c) - 48)) 0 ds"
  define i where "i = (if (s1 \<noteq> [] \<and> hd s1 = CHR ''-'') then - v else v)"
  have eq: "int4in other s =
     (if ds = [] \<or> rest \<noteq> []
         then (case other s of
                 None \<Rightarrow> Inl A
               | Some i \<Rightarrow> if in_int4 i then Inr i else Inl B)
         else if in_int4 i then Inr i else Inl B)"
    by (simp only: int4in_def Let_def s1_def s2_def ds_def rest_def v_def i_def A_def B_def)
  have "err = A \<or> err = B"
  proof (cases "ds = [] \<or> rest \<noteq> []")
    case True
    with eq have e: "int4in other s = (case other s of
                 None \<Rightarrow> Inl A
               | Some i \<Rightarrow> if in_int4 i then Inr i else Inl B)"
      by (simp only: if_True)
    show ?thesis
    proof (cases "other s")
      case None
      with e assms show ?thesis by simp
    next
      case (Some j)
      with e assms show ?thesis by (cases "in_int4 j") simp_all
    qed
  next
    case False
    with eq have e: "int4in other s = (if in_int4 i then Inr i else Inl B)"
      by (simp only: if_False)
    with assms show ?thesis by (cases "in_int4 i") simp_all
  qed
  then show ?thesis by (simp only: A_def B_def)
qed

lemma pg_int4_err_code:
  assumes "pg_int4 other v = Inl err"
  shows "err = PgError ''22P02'' None \<or> err = PgError ''22003'' None"
proof (cases v)
  case (JStr s)
  with assms have "int4in other s = Inl err" by (simp split: sum.splits)
  then show ?thesis by (rule int4in_err_code)
next
  case (JNum n)
  with assms have "err = PgError ''22003'' None" by (cases "in_int4 n") simp_all
  then show ?thesis by (rule disjI2)
next
  case (JBool t)
  with assms have "err = PgError ''22P02'' None" by simp
  then show ?thesis by (rule disjI1)
next
  case (JArr xs)
  with assms have "err = PgError ''22P02'' None" by simp
  then show ?thesis by (rule disjI1)
next
  case (JObj kvs)
  with assms have "err = PgError ''22P02'' None" by simp
  then show ?thesis by (rule disjI1)
next
  case JNull
  with assms show ?thesis by simp
next
  case JUndefined
  with assms show ?thesis by simp
qed

lemma pg_int4_catch:
  assumes "pg_int4 other v = Inl err"
  shows "vote_catch err = Response 500 (Error ''Failed to submit vote'')"
proof -
  have a: "vote_catch (PgError ''22P02'' None) = Response 500 (Error ''Failed to submit vote'')"
    by (simp add: vote_catch_def)
  have b: "vote_catch (PgError ''22003'' None) = Response 500 (Error ''Failed to submit vote'')"
    by (simp add: vote_catch_def)
  from pg_int4_err_code[OF assms] show ?thesis
  proof
    assume "err = PgError ''22P02'' None"
    then show ?thesis by (simp only: a)
  next
    assume "err = PgError ''22003'' None"
    then show ?thesis by (simp only: b)
  qed
qed




section \<open>Verified properties\<close>

text \<open>
  C5, as amended. A submission in which the voter name, the email, the phone or the company
  identifier is missing or empty is answered 400 \<open>All fields are required\<close>. A submission
  with all four fields whose email, converted to a string, does not match the pattern is
  answered 400 \<open>Invalid email format\<close>. When the conversion itself throws, which it does for
  an object with a key \<open>toString\<close>, the handler throws and sends nothing. In all three cases
  no statement reaches the store.
\<close>

theorem vote_validation_before_store:
  "(missing_or_empty (voterName b) \<or> missing_or_empty (voterEmail b)
      \<or> missing_or_empty (voterPhone b) \<or> missing_or_empty (companyVote b)
    \<longrightarrow> res (post_api_vote env b d) = Response 400 (Error ''All fields are required'')
        \<and> queries (post_api_vote env b d) = [] \<and> store (post_api_vote env b d) = d)
   \<and> (truthy (voterName b) \<and> truthy (voterEmail b) \<and> truthy (voterPhone b)
        \<and> truthy (companyVote b) \<and> emailRegex_test (voterEmail b) = Inr False
    \<longrightarrow> res (post_api_vote env b d) = Response 400 (Error ''Invalid email format'')
        \<and> queries (post_api_vote env b d) = [] \<and> store (post_api_vote env b d) = d)
   \<and> (truthy (voterName b) \<and> truthy (voterEmail b) \<and> truthy (voterPhone b)
        \<and> truthy (companyVote b) \<and> emailRegex_test (voterEmail b) = Inl err
    \<longrightarrow> res (post_api_vote env b d) = Thrown
        \<and> queries (post_api_vote env b d) = [] \<and> store (post_api_vote env b d) = d)
   \<and> emailRegex_test (JStr s) = Inr (matches emailRegex s)
   \<and> emailRegex_test (JBool t) = Inr False
   \<and> emailRegex_test (JObj kvs)
        = (if ''toString'' \<in> fst ` set kvs then Inl TypeError else Inr False)"
proof -
  have o: "\<not> matches emailRegex ''[object Object]''" by code_simp
  have t: "emailRegex_test (JBool True) = Inr False" by code_simp
  have f: "emailRegex_test (JBool False) = Inr False" by code_simp
  have 1: "emailRegex_test (JStr s) = Inr (matches emailRegex s)"
    by (simp add: emailRegex_test_def)
  have 2: "emailRegex_test (JBool t) = Inr False"
    using t f by (cases t) simp_all
  have 3: "emailRegex_test (JObj kvs)
        = (if ''toString'' \<in> fst ` set kvs then Inl TypeError else Inr False)"
    using o by (simp add: emailRegex_test_def)
  have 4: "missing_or_empty (voterName b) \<or> missing_or_empty (voterEmail b)
      \<or> missing_or_empty (voterPhone b) \<or> missing_or_empty (companyVote b)
    \<longrightarrow> res (post_api_vote env b d) = Response 400 (Error ''All fields are required'')
        \<and> queries (post_api_vote env b d) = [] \<and> store (post_api_vote env b d) = d"
    by (auto simp: post_api_vote_def dest: missing_not_truthy)
  have 5: "truthy (voterName b) \<and> truthy (voterEmail b) \<and> truthy (voterPhone b)
        \<and> truthy (companyVote b) \<and> emailRegex_test (voterEmail b) = Inr False
    \<longrightarrow> res (post_api_vote env b d) = Response 400 (Error ''Invalid email format'')
        \<and> queries (post_api_vote env b d) = [] \<and> store (post_api_vote env b d) = d"
    by (simp add: post_api_vote_def)
  have 6: "truthy (voterName b) \<and> truthy (voterEmail b) \<and> truthy (voterPhone b)
        \<and> truthy (companyVote b) \<and> emailRegex_test (voterEmail b) = Inl err
    \<longrightarrow> res (post_api_vote env b d) = Thrown
        \<and> queries (post_api_vote env b d) = [] \<and> store (post_api_vote env b d) = d"
    by (simp add: post_api_vote_def)
  from 1 2 3 4 5 6 show ?thesis by (intro conjI)
qed

theorem vote_validation_before_store_witness:
  "res (post_api_vote quiet_env (ana_first\<lparr>voterPhone := JStr []\<rparr>) started_db)
     = Response 400 (Error ''All fields are required'')
   \<and> queries (post_api_vote quiet_env (ana_first\<lparr>voterPhone := JStr []\<rparr>) started_db) = []
   \<and> res (post_api_vote quiet_env ana_spaced started_db)
     = Response 400 (Error ''Invalid email format'')
   \<and> queries (post_api_vote quiet_env ana_spaced started_db) = []
   \<and> res (post_api_vote quiet_env object_email started_db) = Thrown
   \<and> queries (post_api_vote quiet_env object_email started_db) = []"
proof -
  have m: "missing_or_empty (voterName (ana_first\<lparr>voterPhone := JStr []\<rparr>))
      \<or> missing_or_empty (voterEmail (ana_first\<lparr>voterPhone := JStr []\<rparr>))
      \<or> missing_or_empty (voterPhone (ana_first\<lparr>voterPhone := JStr []\<rparr>))
      \<or> missing_or_empty (companyVote (ana_first\<lparr>voterPhone := JStr []\<rparr>))"
    by (simp add: missing_or_empty_def)
  have v: "truthy (voterName ana_spaced) \<and> truthy (voterEmail ana_spaced)
      \<and> truthy (voterPhone ana_spaced) \<and> truthy (companyVote ana_spaced)
      \<and> emailRegex_test (voterEmail ana_spaced) = Inr False"
    by code_simp
  have o: "truthy (voterName object_email) \<and> truthy (voterEmail object_email)
      \<and> truthy (voterPhone object_email) \<and> truthy (companyVote object_email)
      \<and> emailRegex_test (voterEmail object_email) = Inl TypeError"
    by code_simp
  from vote_validation_before_store[where b = "ana_first\<lparr>voterPhone := JStr []\<rparr>"
      and env = quiet_env and d = started_db, THEN conjunct1, THEN mp, OF m]
  have 1: "res (post_api_vote quiet_env (ana_first\<lparr>voterPhone := JStr []\<rparr>) started_db)
     = Response 400 (Error ''All fields are required'')
   \<and> queries (post_api_vote quiet_env (ana_first\<lparr>voterPhone := JStr []\<rparr>) started_db) = []"
    by simp
  from vote_validation_before_store[where b = ana_spaced and env = quiet_env and d = started_db,
      THEN conjunct2, THEN conjunct1, THEN mp, OF v]
  have 2: "res (post_api_vote quiet_env ana_spaced started_db)
     = Response 400 (Error ''Invalid email format'')
   \<and> queries (post_api_vote quiet_env ana_spaced started_db) = []"
    by simp
  from vote_validation_before_store[where b = object_email and env = quiet_env
      and d = started_db and err = TypeError,
      THEN conjunct2, THEN conjunct2, THEN conjunct1, THEN mp, OF o]
  have 3: "res (post_api_vote quiet_env object_email started_db) = Thrown
   \<and> queries (post_api_vote quiet_env object_email started_db) = []"
    by simp
  from 1 2 3 show ?thesis by simp
qed

text \<open>
  C5, the claim as stated fails: an email that is an object with a key \<open>toString\<close> does not
  match the pattern, and the submission is not answered 400: the pattern test throws
  outside the \<open>try\<close> block.
\<close>

theorem object_email_is_not_answered:
  "truthy (voterName object_email) \<and> truthy (voterEmail object_email)
   \<and> truthy (voterPhone object_email) \<and> truthy (companyVote object_email)
   \<and> emailRegex_test (voterEmail object_email) \<noteq> Inr True
   \<and> res (post_api_vote quiet_env object_email started_db) = Thrown
   \<and> res (post_api_vote quiet_env object_email started_db)
       \<noteq> Response 400 (Error ''Invalid email format'')"
  by code_simp

text \<open>
  C10, as amended. A submission whose company identifier is the number 0, the empty
  string, \<open>null\<close> or \<open>false\<close> is answered 400 \<open>All fields are required\<close>, not
  \<open>Invalid company selection\<close>, before any company lookup, and stores nothing.
\<close>

theorem falsy_company_is_missing_field:
  assumes "companyVote b \<in> {JNum 0, JStr [], JNull, JBool False}"
  shows "res (post_api_vote env b d) = Response 400 (Error ''All fields are required'')
       \<and> res (post_api_vote env b d) \<noteq> Response 400 (Error ''Invalid company selection'')
       \<and> queries (post_api_vote env b d) = []
       \<and> store (post_api_vote env b d) = d"
  using assms by (auto simp: post_api_vote_def)

theorem falsy_company_is_missing_field_witness:
  "res (post_api_vote quiet_env (ana_first\<lparr>companyVote := JNum 0\<rparr>) started_db)
     = Response 400 (Error ''All fields are required'')
   \<and> queries (post_api_vote quiet_env (ana_first\<lparr>companyVote := JNum 0\<rparr>) started_db) = []"
  using falsy_company_is_missing_field[of "ana_first\<lparr>companyVote := JNum 0\<rparr>" quiet_env started_db]
  by (simp add: ana_first_def)

text \<open>
  C10, the claim as stated fails: the string \<open>"0"\<close> is truthy, the store reads it as the
  integer 0, and an active company with id 0 receives the vote.
\<close>

theorem string_zero_reaches_company_zero:
  "res (post_api_vote quiet_env (ana_first\<lparr>companyVote := JStr ''0''\<rparr>) zero_company_db)
     = Response 201 (VoteSubmitted ''Vote submitted successfully'' 1)
   \<and> map company_id
        (vote_rows (store (post_api_vote quiet_env (ana_first\<lparr>companyVote := JStr ''0''\<rparr>)
            zero_company_db))) = [Some 0]"
  by code_simp

text \<open>
  C2. The handler looks for the constraint names \<open>unique_email\<close> and \<open>unique_phone\<close>, which
  the schema of \<open>initDB\<close> never creates: the constraint on the email is named
  \<open>votes_new_voter_email_key\<close>. After a first vote, a second one with the same email is
  answered with the generic message, not with the one that names the email.
\<close>

theorem duplicate_email_answer_is_generic:
  "(case votes started_db of None \<Rightarrow> None | Some t \<Rightarrow> t_email_key t)
     = Some ''votes_new_voter_email_key''
   \<and> res (post_api_vote quiet_env ana_first started_db)
     = Response 201 (VoteSubmitted ''Vote submitted successfully'' 1)
   \<and> res (post_api_vote quiet_env ana_lower after_ana)
     = Response 400 (Error ''You have already voted'')"
  by code_simp

text \<open>
  C2, at the failing input: the answer to the duplicate is not the one that names the
  email.
\<close>

theorem duplicate_email_answer_is_generic_witness:
  "res (post_api_vote quiet_env ana_lower after_ana)
     \<noteq> Response 400 (Error ''This email address has already been used to vote'')"
  using duplicate_email_answer_is_generic by simp

text \<open>
  C3. Whenever a submission is answered 201, the row appended to \<open>votes\<close> holds the values
  sent with the \<open>INSERT\<close>. In every run that sends an \<open>INSERT\<close>, answered 201 or not, the
  name sent is the submitted name without its leading and trailing whitespace, the email
  sent is the submitted email lower-cased, free of whitespace and of upper-case letters,
  and the phone sent is the submitted phone without its surrounding whitespace: the
  normalization happens before the statement is sent. The unique index compares this
  normalized email: when the lower-cased and trimmed email is already stored in a table
  that carries the unique index on the email, the submission is not answered 201 and no
  row is added.
\<close>

theorem stored_vote_is_normalized:
  "(res (post_api_vote env b d) = Response 201 bd \<longrightarrow>
      (\<exists>nm em ph vid k.
          queries (post_api_vote env b d) =
            [SelectCompany (companyVote b), InsertVote nm em ph (companyVote b)]
        \<and> bd = VoteSubmitted ''Vote submitted successfully'' vid
        \<and> pg_int4 (int_spellings d) (companyVote b) = Inr k
        \<and> vote_rows (store (post_api_vote env b d)) = vote_rows d @
             [\<lparr>v_id = vid, voter_name = nm, voter_email = em, voter_phone = ph,
               company_id = k\<rparr>]))
   \<and> (InsertVote nm1 em1 ph1 cv1 \<in> set (queries (post_api_vote env b d)) \<longrightarrow>
      (\<exists>n e p l r l' r'.
          voterName b = JStr n \<and> voterEmail b = JStr e \<and> voterPhone b = JStr p
        \<and> cv1 = companyVote b
        \<and> n = l @ nm1 @ r \<and> (\<forall>c \<in> set l. is_space c) \<and> (\<forall>c \<in> set r. is_space c)
        \<and> (nm1 \<noteq> [] \<longrightarrow> \<not> is_space (hd nm1) \<and> \<not> is_space (last nm1))
        \<and> em1 = toLowerCase e \<and> (\<forall>c \<in> set em1. \<not> is_space c \<and> \<not> is_upper c)
        \<and> p = l' @ ph1 @ r' \<and> (\<forall>c \<in> set l'. is_space c) \<and> (\<forall>c \<in> set r'. is_space c)
        \<and> (ph1 \<noteq> [] \<longrightarrow> \<not> is_space (hd ph1) \<and> \<not> is_space (last ph1))))
   \<and> (email_keyed d \<and> voterEmail b = JStr e2
        \<and> toLowerCase e2 = l2 @ em2 @ r2
        \<and> (\<forall>c \<in> set l2. is_space c) \<and> (\<forall>c \<in> set r2. is_space c)
        \<and> (em2 \<noteq> [] \<longrightarrow> \<not> is_space (hd em2) \<and> \<not> is_space (last em2))
        \<and> (\<exists>v \<in> set (vote_rows d). voter_email v = em2)
      \<longrightarrow> res (post_api_vote env b d) \<noteq> Response 201 bd2
          \<and> vote_rows (store (post_api_vote env b d)) = vote_rows d)"
proof -
  have 1: "\<exists>nm em ph vid k.
          queries (post_api_vote env b d) =
            [SelectCompany (companyVote b), InsertVote nm em ph (companyVote b)]
        \<and> bd = VoteSubmitted ''Vote submitted successfully'' vid
        \<and> pg_int4 (int_spellings d) (companyVote b) = Inr k
        \<and> vote_rows (store (post_api_vote env b d)) = vote_rows d @
             [\<lparr>v_id = vid, voter_name = nm, voter_email = em, voter_phone = ph,
               company_id = k\<rparr>]"
    if a: "res (post_api_vote env b d) = Response 201 bd"
  proof -
    from post_api_vote_201[OF a] obtain n e p c cs vid d2 where
      f: "voterName b = JStr n" "voterEmail b = JStr e" "voterPhone b = JStr p"
         "query (f_insert env)
            (insert_vote (trim n) (trim (toLowerCase e)) (trim p) (companyVote b)) d
          = (Inr vid, d2)"
         "bd = VoteSubmitted ''Vote submitted successfully'' vid"
         "store (post_api_vote env b d) = d2"
         "queries (post_api_vote env b d) =
            [SelectCompany (companyVote b),
             InsertVote (trim n) (trim (toLowerCase e)) (trim p) (companyVote b)]"
      by blast
    from query_Inr[OF f(4)] have
      "insert_vote (trim n) (trim (toLowerCase e)) (trim p) (companyVote b) d = (Inr vid, d2)"
      by simp
    from insert_vote_trimmed_Inr[OF this] obtain t k where
      i: "pg_int4 (int_spellings d) (companyVote b) = Inr k"
         "vote_rows d2 = vote_rows d @
            [\<lparr>v_id = vid, voter_name = trim n, voter_email = trim (toLowerCase e),
              voter_phone = trim p, company_id = k\<rparr>]"
      by blast
    from f(5,6,7) i show ?thesis by simp
  qed
  have 2: "\<exists>n e p l r l' r'.
          voterName b = JStr n \<and> voterEmail b = JStr e \<and> voterPhone b = JStr p
        \<and> cv1 = companyVote b
        \<and> n = l @ nm1 @ r \<and> (\<forall>c \<in> set l. is_space c) \<and> (\<forall>c \<in> set r. is_space c)
        \<and> (nm1 \<noteq> [] \<longrightarrow> \<not> is_space (hd nm1) \<and> \<not> is_space (last nm1))
        \<and> em1 = toLowerCase e \<and> (\<forall>c \<in> set em1. \<not> is_space c \<and> \<not> is_upper c)
        \<and> p = l' @ ph1 @ r' \<and> (\<forall>c \<in> set l'. is_space c) \<and> (\<forall>c \<in> set r'. is_space c)
        \<and> (ph1 \<noteq> [] \<longrightarrow> \<not> is_space (hd ph1) \<and> \<not> is_space (last ph1))"
    if a: "InsertVote nm1 em1 ph1 cv1 \<in> set (queries (post_api_vote env b d))"
  proof (cases env b d rule: post_api_vote_cases)
    case early
    with a show ?thesis by simp
  next
    case (failed err e p)
    with a show ?thesis by simp
  next
    case (none e p)
    with a show ?thesis by simp
  next
    case (name c cs e p)
    with a show ?thesis by simp
  next
    case (insert n e p c cs r2 d2)
    from a insert(12) have q: "nm1 = trim n" "em1 = trim (toLowerCase e)" "ph1 = trim p"
      "cv1 = companyVote b"
      by simp_all
    from email_clean(1)[OF insert(8)] q have em: "em1 = toLowerCase e" by simp
    from trim_split[of n] q obtain l r where
      n: "n = l @ nm1 @ r" "\<forall>c \<in> set l. is_space c" "\<forall>c \<in> set r. is_space c"
      by blast
    from trim_split[of p] q obtain l' r' where
      p: "p = l' @ ph1 @ r'" "\<forall>c \<in> set l'. is_space c" "\<forall>c \<in> set r'. is_space c"
      by blast
    from trim_ends[of n] q have ne: "nm1 \<noteq> [] \<longrightarrow> \<not> is_space (hd nm1) \<and> \<not> is_space (last nm1)"
      by simp
    from trim_ends[of p] q have pe: "ph1 \<noteq> [] \<longrightarrow> \<not> is_space (hd ph1) \<and> \<not> is_space (last ph1)"
      by simp
    from email_lower_clean[OF insert(8)] em
    have ec: "\<forall>c \<in> set em1. \<not> is_space c \<and> \<not> is_upper c" by simp
    show ?thesis
      apply (rule exI[of _ n])
      apply (rule exI[of _ e])
      apply (rule exI[of _ p])
      apply (rule exI[of _ l])
      apply (rule exI[of _ r])
      apply (rule exI[of _ l'])
      apply (rule exI[of _ r'])
      using insert(1,2,3) q(4) n ne em ec p pe
      apply (intro conjI)
      apply assumption+
      done
  qed
  have 3: "res (post_api_vote env b d) \<noteq> Response 201 bd2
          \<and> vote_rows (store (post_api_vote env b d)) = vote_rows d"
    if a: "email_keyed d \<and> voterEmail b = JStr e2
        \<and> toLowerCase e2 = l2 @ em2 @ r2
        \<and> (\<forall>c \<in> set l2. is_space c) \<and> (\<forall>c \<in> set r2. is_space c)
        \<and> (em2 \<noteq> [] \<longrightarrow> \<not> is_space (hd em2) \<and> \<not> is_space (last em2))
        \<and> (\<exists>v \<in> set (vote_rows d). voter_email v = em2)"
  proof -
    from a have h: "email_keyed d" "voterEmail b = JStr e2" "toLowerCase e2 = l2 @ em2 @ r2"
      "\<forall>c \<in> set l2. is_space c" "\<forall>c \<in> set r2. is_space c"
      "em2 \<noteq> [] \<longrightarrow> \<not> is_space (hd em2) \<and> \<not> is_space (last em2)"
      "\<exists>v \<in> set (vote_rows d). voter_email v = em2"
      by simp_all
    from trim_unique[OF h(3,4,5,6)] have "trim (toLowerCase e2) = em2" .
    with h(7) have "\<exists>v \<in> set (vote_rows d). voter_email v = trim (toLowerCase e2)" by simp
    from stored_email_not_again[OF h(1,2) this] show ?thesis by simp
  qed
  show ?thesis
    apply (intro conjI)
      apply (rule impI, erule 1)
     apply (rule impI, erule 2)
    apply (rule impI, erule 3)
    done
qed

theorem stored_vote_is_normalized_witness:
  "vote_rows (store (post_api_vote quiet_env ana_padded started_db)) =
     [\<lparr>v_id = 1, voter_name = ''Ana Silva'', voter_email = ''ana@x.com'',
       voter_phone = ''555-0001'', company_id = Some 1\<rparr>]
   \<and> res (post_api_vote quiet_env ana_capitals after_ana)
       \<noteq> Response 201 (VoteSubmitted ''Vote submitted successfully'' 2)
   \<and> vote_rows (store (post_api_vote quiet_env ana_capitals after_ana)) = vote_rows after_ana"
proof -
  have r: "res (post_api_vote quiet_env ana_padded started_db)
             = Response 201 (VoteSubmitted ''Vote submitted successfully'' 1)"
    by code_simp
  have q: "queries (post_api_vote quiet_env ana_padded started_db) =
             [SelectCompany (JNum 1),
              InsertVote ''Ana Silva'' ''ana@x.com'' ''555-0001'' (JNum 1)]"
    by code_simp
  have v: "vote_rows started_db = []" by code_simp
  have k: "pg_int4 (int_spellings started_db) (companyVote ana_padded) = Inr (Some 1)"
    by code_simp
  from stored_vote_is_normalized[where env = quiet_env and b = ana_padded and d = started_db
      and bd = "VoteSubmitted ''Vote submitted successfully'' 1",
      THEN conjunct1, THEN mp, OF r]
  obtain nm em ph vid k' where
    s: "queries (post_api_vote quiet_env ana_padded started_db) =
            [SelectCompany (companyVote ana_padded), InsertVote nm em ph (companyVote ana_padded)]"
       "VoteSubmitted ''Vote submitted successfully'' 1
          = VoteSubmitted ''Vote submitted successfully'' vid"
       "pg_int4 (int_spellings started_db) (companyVote ana_padded) = Inr k'"
       "vote_rows (store (post_api_vote quiet_env ana_padded started_db)) = vote_rows started_db @
             [\<lparr>v_id = vid, voter_name = nm, voter_email = em, voter_phone = ph,
               company_id = k'\<rparr>]"
    by blast
  from s(1) q have "nm = ''Ana Silva''" "em = ''ana@x.com''" "ph = ''555-0001''" by simp_all
  moreover from s(2) have "vid = 1" by simp
  moreover from s(3) k have "k' = Some 1" by simp
  ultimately have 1: "vote_rows (store (post_api_vote quiet_env ana_padded started_db)) =
     [\<lparr>v_id = 1, voter_name = ''Ana Silva'', voter_email = ''ana@x.com'',
       voter_phone = ''555-0001'', company_id = Some 1\<rparr>]"
    using s(4) v by simp
  have h: "email_keyed after_ana \<and> voterEmail ana_capitals = JStr ''ANA@X.COM''
        \<and> toLowerCase ''ANA@X.COM'' = [] @ ''ana@x.com'' @ []
        \<and> (\<forall>c \<in> set []. is_space c) \<and> (\<forall>c \<in> set []. is_space c)
        \<and> (''ana@x.com'' \<noteq> [] \<longrightarrow>
              \<not> is_space (hd ''ana@x.com'') \<and> \<not> is_space (last ''ana@x.com''))
        \<and> (\<exists>v \<in> set (vote_rows after_ana). voter_email v = ''ana@x.com'')"
    by code_simp
  from stored_vote_is_normalized[where env = quiet_env and b = ana_capitals and d = after_ana
      and ?e2.0 = "''ANA@X.COM''" and ?l2.0 = "[]" and ?em2.0 = "''ana@x.com''" and ?r2.0 = "[]"
      and ?bd2.0 = "VoteSubmitted ''Vote submitted successfully'' 2",
      THEN conjunct2, THEN conjunct2, THEN mp, OF h]
  have 2: "res (post_api_vote quiet_env ana_capitals after_ana)
       \<noteq> Response 201 (VoteSubmitted ''Vote submitted successfully'' 2)
   \<and> vote_rows (store (post_api_vote quiet_env ana_capitals after_ana)) = vote_rows after_ana" .
  from 1 2 show ?thesis by simp
qed

text \<open>
  C4, as amended. A submission whose company identifier matches no active company never
  adds a row: the store is left as it was, the answer is not 201, and at most the lookup
  has been sent. Its answer is one of the two validation answers, none at all (the handler
  throws on an email or phone that is no string), 400 \<open>Invalid company selection\<close>, or
  what the \<open>catch\<close> block makes of a failed lookup. When the submission passes validation, its email and phone are strings,
  the table \<open>companies\<close> exists and the lookup is not failed from outside, the answer
  depends on how the store reads the identifier: read as an integer (or as \<open>NULL\<close>) that is
  the id of no active company, the answer is 400 \<open>Invalid company selection\<close>; not read as
  a 32-bit integer, the lookup fails and the answer is 500 \<open>Failed to submit vote\<close>. In
  both cases only the lookup has been sent. In every run, an \<open>INSERT\<close> is preceded by the
  lookup.
\<close>

theorem unknown_or_inactive_company_rejected:
  "((\<forall>c \<in> set (company_rows d). c_active c \<longrightarrow>
        pg_int4 (int_spellings d) (companyVote b) \<noteq> Inr (Some (c_id c)))
    \<longrightarrow> store (post_api_vote env b d) = d
        \<and> res (post_api_vote env b d) \<noteq> Response 201 bd
        \<and> (queries (post_api_vote env b d) = []
            \<or> queries (post_api_vote env b d) = [SelectCompany (companyVote b)])
        \<and> (res (post_api_vote env b d) = Response 400 (Error ''All fields are required'')
            \<or> res (post_api_vote env b d) = Response 400 (Error ''Invalid email format'')
            \<or> res (post_api_vote env b d) = Thrown
            \<or> res (post_api_vote env b d) = Response 400 (Error ''Invalid company selection'')
            \<or> (\<exists>err. query (f_select env) (select_company (companyVote b)) d = (Inl err, d)
                  \<and> res (post_api_vote env b d) = vote_catch err)))
   \<and> (truthy (voterName b) \<and> voterEmail b = JStr e \<and> voterPhone b = JStr p \<and> p \<noteq> []
      \<and> truthy (companyVote b) \<and> emailRegex_test (voterEmail b) = Inr True
      \<and> f_select env = None \<and> companies d = Some ct
      \<and> pg_int4 (int_spellings d) (companyVote b) = Inr k
      \<and> (\<forall>c \<in> set (ct_rows ct). c_active c \<longrightarrow> k \<noteq> Some (c_id c))
    \<longrightarrow> res (post_api_vote env b d) = Response 400 (Error ''Invalid company selection'')
        \<and> store (post_api_vote env b d) = d
        \<and> queries (post_api_vote env b d) = [SelectCompany (companyVote b)])
   \<and> (truthy (voterName b) \<and> voterEmail b = JStr e \<and> voterPhone b = JStr p \<and> p \<noteq> []
      \<and> truthy (companyVote b) \<and> emailRegex_test (voterEmail b) = Inr True
      \<and> f_select env = None \<and> companies d = Some ct
      \<and> pg_int4 (int_spellings d) (companyVote b) = Inl err
    \<longrightarrow> res (post_api_vote env b d) = Response 500 (Error ''Failed to submit vote'')
        \<and> store (post_api_vote env b d) = d
        \<and> queries (post_api_vote env b d) = [SelectCompany (companyVote b)])
   \<and> (queries (post_api_vote env b d) = []
        \<or> queries (post_api_vote env b d) = [SelectCompany (companyVote b)]
        \<or> (\<exists>n' e' p'. queries (post_api_vote env b d) =
              [SelectCompany (companyVote b), InsertVote n' e' p' (companyVote b)]))"
proof -
  have 1: "store (post_api_vote env b d) = d
        \<and> res (post_api_vote env b d) \<noteq> Response 201 bd
        \<and> (queries (post_api_vote env b d) = []
            \<or> queries (post_api_vote env b d) = [SelectCompany (companyVote b)])
        \<and> (res (post_api_vote env b d) = Response 400 (Error ''All fields are required'')
            \<or> res (post_api_vote env b d) = Response 400 (Error ''Invalid email format'')
            \<or> res (post_api_vote env b d) = Thrown
            \<or> res (post_api_vote env b d) = Response 400 (Error ''Invalid company selection'')
            \<or> (\<exists>err. query (f_select env) (select_company (companyVote b)) d = (Inl err, d)
                  \<and> res (post_api_vote env b d) = vote_catch err))"
    if a: "\<forall>c \<in> set (company_rows d). c_active c \<longrightarrow>
             pg_int4 (int_spellings d) (companyVote b) \<noteq> Inr (Some (c_id c))"
  proof -
    have nohit: False
      if s: "query (f_select env) (select_company (companyVote b)) d = (Inr (c # cs), d)"
      for c cs
    proof -
      from query_Inr[OF s] have "select_company (companyVote b) d = (Inr (c # cs), d)" by simp
      from select_company_Inr[OF this]
      have "c \<in> set (company_rows d)" "c_active c"
        "pg_int4 (int_spellings d) (companyVote b) = Inr (Some (c_id c))"
        by simp_all
      with a show False by blast
    qed
    have ans: "res (post_api_vote env b d) = Response 400 (Error ''All fields are required'')
            \<or> res (post_api_vote env b d) = Response 400 (Error ''Invalid email format'')
            \<or> res (post_api_vote env b d) = Thrown
            \<or> res (post_api_vote env b d) = Response 400 (Error ''Invalid company selection'')
            \<or> (\<exists>err. query (f_select env) (select_company (companyVote b)) d = (Inl err, d)
                  \<and> res (post_api_vote env b d) = vote_catch err)"
    proof (cases env b d rule: post_api_vote_cases)
      case early
      then show ?thesis by blast
    next
      case (failed err e p)
      then show ?thesis by blast
    next
      case (none e p)
      then show ?thesis by blast
    next
      case (name c cs e p)
      from nohit[OF name(4)] show ?thesis ..
    next
      case (insert n e p c cs r2 d2)
      from nohit[OF insert(9)] show ?thesis ..
    qed
    have s1: "store (post_api_vote env b d) = d"
      by (rule no_match_no_insert(1)[OF a])
    have s2: "queries (post_api_vote env b d) = []
         \<or> queries (post_api_vote env b d) = [SelectCompany (companyVote b)]"
      by (rule no_match_no_insert(2)[OF a])
    have s3: "res (post_api_vote env b d) \<noteq> Response 201 bd"
      by (rule no_match_no_insert(3)[OF a])
    from s1 s3 s2 ans show ?thesis by (intro conjI)
  qed
  have 2: "res (post_api_vote env b d) = Response 400 (Error ''Invalid company selection'')
        \<and> store (post_api_vote env b d) = d
        \<and> queries (post_api_vote env b d) = [SelectCompany (companyVote b)]"
    if a: "truthy (voterName b) \<and> voterEmail b = JStr e \<and> voterPhone b = JStr p \<and> p \<noteq> []
      \<and> truthy (companyVote b) \<and> emailRegex_test (voterEmail b) = Inr True
      \<and> f_select env = None \<and> companies d = Some ct
      \<and> pg_int4 (int_spellings d) (companyVote b) = Inr k
      \<and> (\<forall>c \<in> set (ct_rows ct). c_active c \<longrightarrow> k \<noteq> Some (c_id c))"
  proof -
    from a have h: "truthy (voterName b)" "voterEmail b = JStr e" "voterPhone b = JStr p"
        "p \<noteq> []" "truthy (companyVote b)" "emailRegex_test (JStr e) = Inr True"
        "f_select env = None" "companies d = Some ct"
        "pg_int4 (int_spellings d) (companyVote b) = Inr k"
        "\<forall>c \<in> set (ct_rows ct). c_active c \<longrightarrow> k \<noteq> Some (c_id c)"
      by auto
    from h(6) have e: "e \<noteq> []" by (auto simp: emailRegex_test_def emailRegex_def Plus_def)
    from h(7,8,9,10) have s: "query (f_select env) (select_company (companyVote b)) d = (Inr [], d)"
      by (cases k) (auto simp: query_def select_company_def filter_empty_conv)
    from h e s show ?thesis
      by (simp add: post_api_vote_def Let_def)
  qed
  have 3: "res (post_api_vote env b d) = Response 500 (Error ''Failed to submit vote'')
        \<and> store (post_api_vote env b d) = d
        \<and> queries (post_api_vote env b d) = [SelectCompany (companyVote b)]"
    if a: "truthy (voterName b) \<and> voterEmail b = JStr e \<and> voterPhone b = JStr p \<and> p \<noteq> []
      \<and> truthy (companyVote b) \<and> emailRegex_test (voterEmail b) = Inr True
      \<and> f_select env = None \<and> companies d = Some ct
      \<and> pg_int4 (int_spellings d) (companyVote b) = Inl err"
  proof -
    from a have h: "truthy (voterName b)" "voterEmail b = JStr e" "voterPhone b = JStr p"
        "p \<noteq> []" "truthy (companyVote b)" "emailRegex_test (JStr e) = Inr True"
        "f_select env = None" "companies d = Some ct"
        "pg_int4 (int_spellings d) (companyVote b) = Inl err"
      by auto
    from h(6) have e: "e \<noteq> []" by (auto simp: emailRegex_test_def emailRegex_def Plus_def)
    from h(7,8,9) have s: "query (f_select env) (select_company (companyVote b)) d = (Inl err, d)"
      by (simp add: query_def select_company_def)
    from pg_int4_catch[OF h(9)] have c: "vote_catch err = Response 500 (Error ''Failed to submit vote'')" .
    from h e s c show ?thesis
      by (simp add: post_api_vote_def Let_def)
  qed
  have 4: "queries (post_api_vote env b d) = []
        \<or> queries (post_api_vote env b d) = [SelectCompany (companyVote b)]
        \<or> (\<exists>n' e' p'. queries (post_api_vote env b d) =
              [SelectCompany (companyVote b), InsertVote n' e' p' (companyVote b)])"
    by (cases env b d rule: post_api_vote_cases) simp_all
  show ?thesis
    apply (intro conjI)
       apply (rule impI, erule 1)
      apply (rule impI, erule 2)
     apply (rule impI, erule 3)
    apply (rule 4)
    done
qed

theorem unknown_or_inactive_company_rejected_witness:
  "res (post_api_vote quiet_env (ana_first\<lparr>companyVote := JNum 2\<rparr>) deactivated_db)
     = Response 400 (Error ''Invalid company selection'')
   \<and> store (post_api_vote quiet_env (ana_first\<lparr>companyVote := JNum 2\<rparr>) deactivated_db)
     = deactivated_db
   \<and> queries (post_api_vote quiet_env (ana_first\<lparr>companyVote := JNum 2\<rparr>) deactivated_db)
     = [SelectCompany (JNum 2)]
   \<and> res (post_api_vote quiet_env abc_company deactivated_db)
     = Response 500 (Error ''Failed to submit vote'')
   \<and> store (post_api_vote quiet_env abc_company deactivated_db) = deactivated_db
   \<and> queries (post_api_vote quiet_env abc_company deactivated_db)
     = [SelectCompany (JStr ''abc'')]"
proof -
  let ?b = "ana_first\<lparr>companyVote := JNum 2\<rparr>"
  have h: "truthy (voterName ?b) \<and> voterEmail ?b = JStr ''Ana@X.com''
      \<and> voterPhone ?b = JStr ''555-0001'' \<and> ''555-0001'' \<noteq> []
      \<and> truthy (companyVote ?b) \<and> emailRegex_test (voterEmail ?b) = Inr True
      \<and> f_select quiet_env = None
      \<and> companies deactivated_db = Some deactivated_companies
      \<and> pg_int4 (int_spellings deactivated_db) (companyVote ?b) = Inr (Some 2)
      \<and> (\<forall>c \<in> set (ct_rows deactivated_companies). c_active c \<longrightarrow> Some 2 \<noteq> Some (c_id c))"
    by code_simp
  have c: "companyVote ?b = JNum 2" by simp
  from unknown_or_inactive_company_rejected[where b = ?b and e = "''Ana@X.com''"
      and p = "''555-0001''" and env = quiet_env and d = deactivated_db
      and ct = deactivated_companies and k = "Some 2",
      THEN conjunct2, THEN conjunct1, THEN mp, OF h]
  have 1: "res (post_api_vote quiet_env ?b deactivated_db)
     = Response 400 (Error ''Invalid company selection'')
   \<and> store (post_api_vote quiet_env ?b deactivated_db) = deactivated_db
   \<and> queries (post_api_vote quiet_env ?b deactivated_db) = [SelectCompany (JNum 2)]"
    unfolding c .
  have g: "truthy (voterName abc_company) \<and> voterEmail abc_company = JStr ''Ana@X.com''
      \<and> voterPhone abc_company = JStr ''555-0001'' \<and> ''555-0001'' \<noteq> []
      \<and> truthy (companyVote abc_company) \<and> emailRegex_test (voterEmail abc_company) = Inr True
      \<and> f_select quiet_env = None
      \<and> companies deactivated_db = Some deactivated_companies
      \<and> pg_int4 (int_spellings deactivated_db) (companyVote abc_company)
          = Inl (PgError ''22P02'' None)"
    by code_simp
  have c': "companyVote abc_company = JStr ''abc''" by code_simp
  from unknown_or_inactive_company_rejected[where b = abc_company and e = "''Ana@X.com''"
      and p = "''555-0001''" and env = quiet_env and d = deactivated_db
      and ct = deactivated_companies and err = "PgError ''22P02'' None",
      THEN conjunct2, THEN conjunct2, THEN conjunct1, THEN mp, OF g]
  have 2: "res (post_api_vote quiet_env abc_company deactivated_db)
     = Response 500 (Error ''Failed to submit vote'')
   \<and> store (post_api_vote quiet_env abc_company deactivated_db) = deactivated_db
   \<and> queries (post_api_vote quiet_env abc_company deactivated_db)
     = [SelectCompany (JStr ''abc'')]"
    unfolding c' .
  from 1 2 show ?thesis by simp
qed

text \<open>
  C4, the claim as stated fails: the identifiers \<open>"abc"\<close> and 2147483648 match no company,
  and the submissions are answered 500 \<open>Failed to submit vote\<close>, not 400: the lookup
  itself fails, since the store cannot read the identifier as a 32-bit integer.
\<close>

theorem unreadable_company_is_server_error:
  "filter (\<lambda>c. pg_int4 (int_spellings started_db) (companyVote abc_company) = Inr (Some (c_id c)))
      (company_rows started_db) = []
   \<and> truthy (voterName abc_company) \<and> truthy (voterEmail abc_company)
   \<and> truthy (voterPhone abc_company) \<and> truthy (companyVote abc_company)
   \<and> emailRegex_test (voterEmail abc_company) = Inr True
   \<and> res (post_api_vote quiet_env abc_company started_db)
       = Response 500 (Error ''Failed to submit vote'')
   \<and> res (post_api_vote quiet_env abc_company started_db)
       \<noteq> Response 400 (Error ''Invalid company selection'')
   \<and> filter (\<lambda>c. pg_int4 (int_spellings started_db) (companyVote big_company) = Inr (Some (c_id c)))
      (company_rows started_db) = []
   \<and> res (post_api_vote quiet_env big_company started_db)
       = Response 500 (Error ''Failed to submit vote'')"
  by code_simp



text \<open>
  C1, as amended. Let a submission be answered 201 on a store whose table \<open>votes\<close> carries
  the email constraint, and let a second submission have an email equal to the first after
  lower-casing and trimming. Processed afterwards, the second is never answered 201 and
  leaves the rows of \<open>votes\<close> as they were; it is answered 400 when its name and phone are
  strings within the column lengths, its company identifier is an integer and the store
  raises no fault of its own; and when its email carries surrounding white space it is
  answered 400 \<open>Invalid email format\<close> before any statement reaches the store.
\<close>

theorem same_email_second_submission_rejected:
  assumes first: "res (post_api_vote env1 b1 d) = Response 201 bd1"
    and keyed: "email_keyed d"
    and emails: "voterEmail b1 = JStr e1" "voterEmail b2 = JStr e2"
                "trim (toLowerCase e1) = trim (toLowerCase e2)"
  shows "(\<forall>bd2. res (post_api_vote env2 b2 (store (post_api_vote env1 b1 d))) \<noteq> Response 201 bd2)
       \<and> vote_rows (store (post_api_vote env2 b2 (store (post_api_vote env1 b1 d))))
           = vote_rows (store (post_api_vote env1 b1 d))
       \<and> (voterName b2 = JStr n2 \<and> voterPhone b2 = JStr p2
            \<and> length (trim n2) \<le> 255 \<and> length (trim p2) \<le> 20
            \<and> pg_int4 (int_spellings d) (companyVote b2) = Inr k
            \<and> f_select env2 = None \<and> f_insert env2 = None
          \<longrightarrow> (\<exists>m. res (post_api_vote env2 b2 (store (post_api_vote env1 b1 d)))
                      = Response 400 (Error m)))
       \<and> (trim e2 \<noteq> e2 \<and> truthy (voterName b2) \<and> truthy (voterPhone b2)
            \<and> truthy (companyVote b2)
          \<longrightarrow> res (post_api_vote env2 b2 (store (post_api_vote env1 b1 d)))
                = Response 400 (Error ''Invalid email format'')
              \<and> queries (post_api_vote env2 b2 (store (post_api_vote env1 b1 d))) = [])"
proof -
  let ?d1 = "store (post_api_vote env1 b1 d)"
  let ?em = "trim (toLowerCase e2)"
  from post_api_vote_201[OF first] emails(1) obtain n1 p1 c1 cs1 vid1 where
    f: "query (f_select env1) (select_company (companyVote b1)) d = (Inr (c1 # cs1), d)"
       "query (f_insert env1)
          (insert_vote (trim n1) (trim (toLowerCase e1)) (trim p1) (companyVote b1)) d
          = (Inr vid1, ?d1)"
    by auto
  from query_Inr[OF f(2)] have
    "insert_vote (trim n1) (trim (toLowerCase e1)) (trim p1) (companyVote b1) d = (Inr vid1, ?d1)"
    by simp
  from insert_vote_trimmed_Inr[OF this] obtain t0 k0 where
    i: "length (trim (toLowerCase e1)) \<le> 255"
       "vote_rows ?d1 = vote_rows d @
          [\<lparr>v_id = vid1, voter_name = trim n1, voter_email = trim (toLowerCase e1),
            voter_phone = trim p1, company_id = k0\<rparr>]"
       "companies ?d1 = companies d" "int_spellings ?d1 = int_spellings d"
       "email_keyed ?d1 = email_keyed d"
    by blast
  from i(5) keyed have t1: "email_keyed ?d1" by simp
  from i(1) emails(3) have t3: "length ?em \<le> 255" by simp
  from i(2) emails(3) have t4: "\<exists>v \<in> set (vote_rows ?d1). voter_email v = ?em" by simp
  from query_Inr[OF f(1)] obtain ct where ct: "companies d = Some ct"
    by (auto simp: select_company_def split: option.splits)
  have not201: "res (post_api_vote env2 b2 ?d1) \<noteq> Response 201 bd2" for bd2
    by (rule stored_email_not_again(1)[OF t1 emails(2) t4])
  have kept: "vote_rows (store (post_api_vote env2 b2 ?d1)) = vote_rows ?d1"
    by (rule stored_email_not_again(2)[OF t1 emails(2) t4])
  have b400: "\<exists>m. res (post_api_vote env2 b2 ?d1) = Response 400 (Error m)"
    if h: "voterName b2 = JStr n2 \<and> voterPhone b2 = JStr p2
            \<and> length (trim n2) \<le> 255 \<and> length (trim p2) \<le> 20
            \<and> pg_int4 (int_spellings d) (companyVote b2) = Inr k
            \<and> f_select env2 = None \<and> f_insert env2 = None"
  proof -
    from h have g: "voterName b2 = JStr n2" "voterPhone b2 = JStr p2"
      "length (trim n2) \<le> 255" "length (trim p2) \<le> 20"
      "pg_int4 (int_spellings d) (companyVote b2) = Inr k"
      "f_select env2 = None" "f_insert env2 = None"
      by auto
    from g(5) i(4) have g5: "pg_int4 (int_spellings ?d1) (companyVote b2) = Inr k" by simp
    from ct i(3) have ct1: "companies ?d1 = Some ct" by simp
    from select_company_ok[OF ct1 g5] obtain rows where
      sel: "select_company (companyVote b2) ?d1 = (Inr rows, ?d1)" by auto
    from insert_vote_dup[OF t1 t4 g5 g(3) t3 g(4)] obtain kn d2 where
      ins: "insert_vote (trim n2) ?em (trim p2) (companyVote b2) ?d1
              = (Inl (PgError ''23505'' kn), d2)" by blast
    from vote_catch_23505[of kn] obtain m where
      m: "vote_catch (PgError ''23505'' kn) = Response 400 (Error m)" by blast
    have rx: "emailRegex_test (JStr e2) = Inr (matches emailRegex e2)"
      by (simp add: emailRegex_test_def)
    show ?thesis
      using g emails(2) sel ins m rx
      by (cases rows; cases "matches emailRegex e2")
         (auto simp: post_api_vote_def Let_def query_def)
  qed
  have spaced: "res (post_api_vote env2 b2 ?d1) = Response 400 (Error ''Invalid email format'')
              \<and> queries (post_api_vote env2 b2 ?d1) = []"
    if h: "trim e2 \<noteq> e2 \<and> truthy (voterName b2) \<and> truthy (voterPhone b2)
            \<and> truthy (companyVote b2)"
  proof -
    from h email_clean(2)[of e2] have "emailRegex_test (JStr e2) \<noteq> Inr True" by blast
    then have "emailRegex_test (JStr e2) = Inr False" by (simp add: emailRegex_test_def)
    moreover from h have "e2 \<noteq> []" by (auto simp: trim_def)
    ultimately show ?thesis using h emails(2) by (simp add: post_api_vote_def)
  qed
  show ?thesis
    apply (intro conjI allI)
       apply (rule not201)
      apply (rule kept)
     apply (rule impI, erule b400)
    apply (rule impI, erule spaced)
    done
qed

theorem same_email_second_submission_rejected_witness:
  "vote_rows (store (post_api_vote quiet_env ana_lower after_ana)) = vote_rows after_ana
   \<and> res (post_api_vote quiet_env ana_spaced after_ana)
       = Response 400 (Error ''Invalid email format'')"
proof -
  have r: "res (post_api_vote quiet_env ana_first started_db)
             = Response 201 (VoteSubmitted ''Vote submitted successfully'' 1)"
    by code_simp
  have k: "email_keyed started_db" by code_simp
  have e: "voterEmail ana_first = JStr ''Ana@X.com''" "voterEmail ana_lower = JStr ''ana@x.com''"
    "voterEmail ana_spaced = JStr ''ana@x.com ''"
    by (simp_all add: ana_first_def ana_lower_def ana_spaced_def)
  have c: "trim (toLowerCase ''Ana@X.com'') = trim (toLowerCase ''ana@x.com'')"
    "trim (toLowerCase ''Ana@X.com'') = trim (toLowerCase ''ana@x.com '')"
    by code_simp+
  have s: "trim ''ana@x.com '' \<noteq> ''ana@x.com '' \<and> truthy (voterName ana_spaced)
      \<and> truthy (voterPhone ana_spaced) \<and> truthy (companyVote ana_spaced)"
    by code_simp
  from same_email_second_submission_rejected[OF r k e(1) e(2) c(1), of quiet_env]
  have "vote_rows (store (post_api_vote quiet_env ana_lower after_ana)) = vote_rows after_ana"
    unfolding after_ana_def by blast
  moreover
  from same_email_second_submission_rejected[OF r k e(1) e(3) c(2), of quiet_env] s
  have "res (post_api_vote quiet_env ana_spaced after_ana)
          = Response 400 (Error ''Invalid email format'')"
    unfolding after_ana_def by blast
  ultimately show ?thesis by blast
qed

text \<open>
  C1, the claim as stated fails in its own scenario: after the 201 for \<open>Ana@X.com\<close>, the
  submission with \<open>"ana@x.com "\<close> and another phone is answered \<open>Invalid email format\<close>,
  not with a duplicate-email error, because the pattern is tested before the trim.
\<close>

theorem spaced_variant_is_invalid_email:
  "res (post_api_vote quiet_env ana_first started_db)
     = Response 201 (VoteSubmitted ''Vote submitted successfully'' 1)
   \<and> res (post_api_vote quiet_env ana_spaced after_ana)
     = Response 400 (Error ''Invalid email format'')
   \<and> res (post_api_vote quiet_env ana_spaced after_ana)
     \<noteq> Response 400 (Error ''This email address has already been used to vote'')"
  by code_simp

text \<open>
  C6, as amended. When there is no vote, every percentage of the leaderboard is 0. When
  there are votes, company ids are distinct and every vote refers to an active company,
  each percentage is the company's count times 100 over the number of votes, rounded to
  one decimal, and the percentages sum to 100 within 0.05 per listed company.
\<close>

theorem leaderboard_percentages_sum:
  "(total_votes d = 0 \<longrightarrow>
      (\<forall>q \<in> set (percentages (res (get_api_leaderboard flt d))). q = 0))
   \<and> (0 < total_votes d \<and> distinct (map c_id (company_rows d)) \<and> votes_reference_active d \<longrightarrow>
        \<bar>sum_list (percentages (res (get_api_leaderboard None d))) - 100\<bar>
          \<le> rat_of_nat (length (percentages (res (get_api_leaderboard None d)))) / 20
        \<and> length (percentages (res (get_api_leaderboard None d)))
            = length (filter c_active (company_rows d))
        \<and> (\<forall>q \<in> set (percentages (res (get_api_leaderboard None d))).
              \<exists>c \<in> set (company_rows d). c_active c \<and>
                q = pg_round1 (rat_of_nat (count_votes (vote_rows d) (c_id c)) * 100
                               / rat_of_nat (total_votes d))))"
proof (intro conjI impI)
  assume "total_votes d = 0"
  then show "\<forall>q \<in> set (percentages (res (get_api_leaderboard flt d))). q = 0"
    by (rule leaderboard_no_votes)
next
  assume a: "0 < total_votes d \<and> distinct (map c_id (company_rows d)) \<and> votes_reference_active d"
  then obtain vt where vt: "votes d = Some vt" "t_rows vt \<noteq> []"
    by (auto simp: total_votes_def split: option.splits)
  then have vr: "vote_rows d = t_rows vt" "total_votes d = length (t_rows vt)"
    by (simp_all add: vote_rows_def total_votes_def)
  from a vt vr obtain ct where ct: "companies d = Some ct"
    by (cases "t_rows vt"; cases "companies d")
       (auto simp: votes_reference_active_def company_rows_def)
  then have cr: "company_rows d = ct_rows ct" by (simp add: company_rows_def)
  let ?vs = "t_rows vt"
  let ?acs = "filter c_active (ct_rows ct)"
  let ?round = "\<lambda>c. pg_round1 (rat_of_nat (count_votes ?vs (c_id c)) * 100 / rat_of_nat (length ?vs))"
  let ?exact = "\<lambda>c. rat_of_nat (count_votes ?vs (c_id c)) * 100 / rat_of_nat (length ?vs)"
  have p: "percentages (res (get_api_leaderboard None d))
             = map pct_of (sort_key (\<lambda>r. (- int (lr_vote_count r), lr_name r))
                 (map (lb_row_of ?vs) ?acs))"
    by (rule leaderboard_percentages[OF ct vt(1)])
  have pr: "pct_of (lb_row_of ?vs c) = ?round c" for c
    using vt(2) by (simp add: pct_of_def lb_row_of_def)
  have s: "sum_list (percentages (res (get_api_leaderboard None d))) = sum_list (map ?round ?acs)"
    unfolding p by (simp add: sum_list_sort_key comp_def pr)
  have da: "distinct (map c_id ?acs)" using a cr by (simp add: distinct_map_filter)
  have ra: "\<forall>v \<in> set ?vs. \<exists>c \<in> set ?acs. company_id v = Some (c_id c)"
    using a vr cr by (auto simp: votes_reference_active_def)
  have "sum_list (map ?exact ?acs) = 100"
    by (rule exact_shares_sum[OF counts_add_up[OF da ra] vt(2)])
  moreover have "\<bar>sum_list (map ?round ?acs) - sum_list (map ?exact ?acs)\<bar>
                   \<le> rat_of_nat (length ?acs) * (1 / 20)"
    by (rule sum_list_near) (intro ballI pg_round1_near)
  ultimately have "\<bar>sum_list (map ?round ?acs) - 100\<bar> \<le> rat_of_nat (length ?acs) / 20"
    by simp
  moreover have l: "length (percentages (res (get_api_leaderboard None d))) = length ?acs"
    unfolding p by simp
  ultimately show "\<bar>sum_list (percentages (res (get_api_leaderboard None d))) - 100\<bar>
          \<le> rat_of_nat (length (percentages (res (get_api_leaderboard None d)))) / 20"
    using s by simp
  show "length (percentages (res (get_api_leaderboard None d)))
            = length (filter c_active (company_rows d))"
    using l cr by simp
  show "\<forall>q \<in> set (percentages (res (get_api_leaderboard None d))).
              \<exists>c \<in> set (company_rows d). c_active c \<and>
                q = pg_round1 (rat_of_nat (count_votes (vote_rows d) (c_id c)) * 100
                               / rat_of_nat (total_votes d))"
    unfolding p using cr vr by (auto simp: pr)
qed

theorem leaderboard_percentages_sum_witness:
  "percentages (res (get_api_leaderboard None all_active_db)) = [333 / 10, 333 / 10, 333 / 10]
   \<and> \<bar>sum_list (percentages (res (get_api_leaderboard None all_active_db))) - 100\<bar> \<le> 3 / 20
   \<and> percentages (res (get_api_leaderboard None started_db)) = [0, 0]"
proof -
  have h: "0 < total_votes all_active_db \<and> distinct (map c_id (company_rows all_active_db))
      \<and> votes_reference_active all_active_db"
    by code_simp
  have z: "total_votes started_db = 0" by code_simp
  have p: "percentages (res (get_api_leaderboard None all_active_db)) = [333 / 10, 333 / 10, 333 / 10]"
    "percentages (res (get_api_leaderboard None started_db)) = [0, 0]"
    by code_simp+
  from leaderboard_percentages_sum[of all_active_db None, THEN conjunct2, THEN mp, OF h]
  have "\<bar>sum_list (percentages (res (get_api_leaderboard None all_active_db))) - 100\<bar>
          \<le> rat_of_nat (length (percentages (res (get_api_leaderboard None all_active_db)))) / 20"
    by blast
  with p show ?thesis by simp
qed

text \<open>
  C6, the claim as stated fails: the denominator counts all votes, the rows are the active
  companies only. With one vote for an active and one for a deactivated company the only
  percentage is 50.
\<close>

theorem deactivated_votes_break_the_sum:
  "total_votes split_db = 2
   \<and> percentages (res (get_api_leaderboard None split_db)) = [50]
   \<and> \<not> \<bar>sum_list (percentages (res (get_api_leaderboard None split_db))) - 100\<bar> \<le> 1"
  by code_simp

text \<open>
  C9, as amended. When a legacy table \<open>votes\<close> exists, no \<open>votes_new\<close> is left over and no
  statement fails, \<open>initDB\<close> leaves the legacy table under \<open>votes_old\<close> and the new table,
  with its two uniqueness constraints, under \<open>votes\<close>. Whatever faults hit the three
  statements of the rename sequence, the run goes on to seed the companies and logs its
  success. After any positive number of starts whose \<open>CREATE TABLE\<close> and seeding statements
  run, on a store with unique company names, exactly one company is named \<open>Apple\<close> and
  exactly one \<open>Google\<close>.
\<close>

theorem initDB_migration_and_seeding:
  "(votes d = Some legacy \<and> votes_new d = None
      \<and> f_create_companies f = None \<and> f_create_votes_new f = None \<and> f_drop_old f = None
      \<and> f_rename_votes f = None \<and> f_rename_new f = None
    \<longrightarrow> votes_old (fst (initDB f d)) = Some legacy \<and> votes_new (fst (initDB f d)) = None
        \<and> (\<exists>ek pk. votes (fst (initDB f d)) =
              Some \<lparr>t_rows = [], t_next_id = 1, t_email_key = Some ek, t_phone_key = Some pk\<rparr>))
   \<and> (seeding_runs f
    \<longrightarrow> (\<exists>l. snd (initDB (f\<lparr>f_drop_old := x, f_rename_votes := y, f_rename_new := z\<rparr>) d)
                = [l, ''Database initialized successfully''])
        \<and> ''Apple'' \<in> c_name ` set (company_rows
              (fst (initDB (f\<lparr>f_drop_old := x, f_rename_votes := y, f_rename_new := z\<rparr>) d)))
        \<and> ''Google'' \<in> c_name ` set (company_rows
              (fst (initDB (f\<lparr>f_drop_old := x, f_rename_votes := y, f_rename_new := z\<rparr>) d))))
   \<and> (fs \<noteq> [] \<and> (\<forall>g \<in> set fs. seeding_runs g) \<and> names_unique d
    \<longrightarrow> count_named ''Apple'' (startups fs d) = 1
        \<and> count_named ''Google'' (startups fs d) = 1)"
proof (intro conjI impI)
  assume "votes d = Some legacy \<and> votes_new d = None
      \<and> f_create_companies f = None \<and> f_create_votes_new f = None \<and> f_drop_old f = None
      \<and> f_rename_votes f = None \<and> f_rename_new f = None"
  then have p: "votes_old (fst (initDB f d)) = Some legacy \<and> votes_new (fst (initDB f d)) = None
       \<and> (\<exists>ek pk. votes (fst (initDB f d)) =
             Some \<lparr>t_rows = [], t_next_id = 1, t_email_key = Some ek, t_phone_key = Some pk\<rparr>)"
    using initDB_promotes[of d legacy f] by blast
  from p show "votes_old (fst (initDB f d)) = Some legacy" by blast
  from p show "votes_new (fst (initDB f d)) = None" by blast
  from p show "\<exists>ek pk. votes (fst (initDB f d)) =
             Some \<lparr>t_rows = [], t_next_id = 1, t_email_key = Some ek, t_phone_key = Some pk\<rparr>"
    by blast
next
  let ?f = "f\<lparr>f_drop_old := x, f_rename_votes := y, f_rename_new := z\<rparr>"
  assume "seeding_runs f"
  then have s: "seeding_runs ?f" by (simp add: seeding_runs_rename_faults)
  show "\<exists>l. snd (initDB ?f d) = [l, ''Database initialized successfully'']"
    by (rule initDB_seeded(2)[OF s])
  have "company_rows (fst (initDB ?f d)) = ct_rows
           (seed_row ''Google'' ''https://google.com'' ''https://logo.clearbit.com/google.com''
             (seed_row ''Apple'' ''https://apple.com'' ''https://logo.clearbit.com/apple.com''
               (case companies d of None \<Rightarrow> \<lparr>ct_rows = [], ct_next_id = 1\<rparr> | Some t \<Rightarrow> t)))"
    using initDB_seeded(1)[OF s, of d] by (simp add: company_rows_def)
  then show "''Apple'' \<in> c_name ` set (company_rows (fst (initDB ?f d)))"
    "''Google'' \<in> c_name ` set (company_rows (fst (initDB ?f d)))"
    by (simp_all add: seed_row_names)
next
  assume a: "fs \<noteq> [] \<and> (\<forall>g \<in> set fs. seeding_runs g) \<and> names_unique d"
  then have "count_named ''Apple'' (startups fs d) = 1 \<and> count_named ''Google'' (startups fs d) = 1"
    using startups_default_names[of fs d] by blast
  then show "count_named ''Apple'' (startups fs d) = 1" "count_named ''Google'' (startups fs d) = 1"
    by simp_all
qed

theorem initDB_migration_and_seeding_witness:
  "votes_old (fst (initDB no_faults legacy_db)) = Some legacy_votes
   \<and> votes_new (fst (initDB no_faults legacy_db)) = None
   \<and> ''Apple'' \<in> c_name ` set (company_rows (fst (initDB broken_rename legacy_db)))
   \<and> count_named ''Apple'' (startups [no_faults, broken_rename, no_faults] legacy_db) = 1
   \<and> count_named ''Google'' (startups [no_faults, broken_rename, no_faults] legacy_db) = 1"
proof -
  have a: "votes legacy_db = Some legacy_votes \<and> votes_new legacy_db = None
      \<and> f_create_companies no_faults = None \<and> f_create_votes_new no_faults = None
      \<and> f_drop_old no_faults = None \<and> f_rename_votes no_faults = None
      \<and> f_rename_new no_faults = None"
    by (simp add: legacy_db_def no_faults_def)
  have b: "seeding_runs no_faults"
    "broken_rename = no_faults\<lparr>f_drop_old := None, f_rename_votes := None,
        f_rename_new := Some (PgError ''08006'' None)\<rparr>"
    by (simp_all add: seeding_runs_def no_faults_def broken_rename_def)
  have c: "[no_faults, broken_rename, no_faults] \<noteq> []
      \<and> (\<forall>g \<in> set [no_faults, broken_rename, no_faults]. seeding_runs g)
      \<and> names_unique legacy_db"
    by (simp add: seeding_runs_def no_faults_def broken_rename_def names_unique_def
          company_rows_def legacy_db_def)
  note t = initDB_migration_and_seeding[where d = legacy_db and legacy = legacy_votes
      and f = no_faults and x = None and y = None and z = "Some (PgError ''08006'' None)"
      and fs = "[no_faults, broken_rename, no_faults]"]
  from t a have "votes_old (fst (initDB no_faults legacy_db)) = Some legacy_votes
      \<and> votes_new (fst (initDB no_faults legacy_db)) = None" by blast
  moreover from t b have
    "''Apple'' \<in> c_name ` set (company_rows (fst (initDB broken_rename legacy_db)))" by simp
  moreover from t c have
    "count_named ''Apple'' (startups [no_faults, broken_rename, no_faults] legacy_db) = 1
     \<and> count_named ''Google'' (startups [no_faults, broken_rename, no_faults] legacy_db) = 1"
    by blast
  ultimately show ?thesis by blast
qed

text \<open>
  C9, the claim as stated fails: the renames are three statements without a transaction.
  When the last one fails, the legacy table has been renamed aside, the new table has not
  been promoted, no table \<open>votes\<close> exists, and \<open>initDB\<close> reports success.
\<close>

theorem rename_sequence_is_not_atomic:
  "votes legacy_db = Some legacy_votes
   \<and> votes (fst (initDB broken_rename legacy_db)) = None
   \<and> votes_old (fst (initDB broken_rename legacy_db)) = Some legacy_votes
   \<and> votes_new (fst (initDB broken_rename legacy_db)) =
       Some \<lparr>t_rows = [], t_next_id = 1, t_email_key = Some ''votes_new_voter_email_key'',
             t_phone_key = Some ''votes_new_voter_phone_key''\<rparr>
   \<and> snd (initDB broken_rename legacy_db) =
       [''Votes table setup completed'', ''Database initialized successfully'']"
  by code_simp




end
